theory Spec2Isabelle
  imports Main "HOL-Library.Multiset"
begin

section \<open>Python values used by the player\<close>

text \<open>
  The player is one Python class, \<^verbatim>\<open>PlexTUI\<close>, whose methods read objects of the
  Plex client library and mutate the fields of the application object. The embedding keeps
  the method names. Strings are lists of 8-bit characters (the Latin-1 code points).
\<close>

datatype exn = AttributeError | OtherError

text \<open>A call of a collaborator either raises or returns a value.\<close>

datatype 'a reply = Raises exn | Returns 'a

text \<open>
  An attribute of a remote object read through \<^verbatim>\<open>hasattr(o, 'x') and o.x\<close>:
  \<open>Missing\<close> when \<^verbatim>\<open>hasattr\<close> is false, \<open>Raising\<close> when the read raises anything
  other than \<^verbatim>\<open>AttributeError\<close>, \<open>Has v\<close> when it yields \<open>v\<close>.
\<close>

datatype 'a attr = Missing | Raising | Has 'a

text \<open>\<^verbatim>\<open>str.isspace\<close> on the code points below 256, and \<^verbatim>\<open>str.strip()\<close>.\<close>

definition is_space :: "char \<Rightarrow> bool" where
  "is_space c = (c \<in> set [CHR 0x09, CHR 0x0A, CHR 0x0B, CHR 0x0C, CHR 0x0D, CHR 0x1C,
                           CHR 0x1D, CHR 0x1E, CHR 0x1F, CHR 0x20, CHR 0x85, CHR 0xA0])"

definition strip :: "string \<Rightarrow> string" where
  "strip s = rev (dropWhile is_space (rev (dropWhile is_space s)))"

text \<open>\<^verbatim>\<open>needle in haystack\<close> on strings.\<close>

fun starts_with :: "string \<Rightarrow> string \<Rightarrow> bool" where
  "starts_with [] s = True"
| "starts_with (c # cs) [] = False"
| "starts_with (c # cs) (d # ds) = (c = d \<and> starts_with cs ds)"

fun contains :: "string \<Rightarrow> string \<Rightarrow> bool" where
  "contains needle [] = (needle = [])"
| "contains needle (c # cs) = (starts_with needle (c # cs) \<or> contains needle cs)"

text \<open>
  The raw document \<^verbatim>\<open>_data\<close> of an object is an XML element: the list of its
  children, each a tag with an optional text. \<^verbatim>\<open>find\<close> yields the first child with
  the tag; an element without children is falsy.
\<close>

type_synonym xml = "(string \<times> string option) list"

fun find_elem :: "xml \<Rightarrow> string \<Rightarrow> string option option" where
  "find_elem [] n = None"
| "find_elem ((tag, txt) # d) n = (if tag = n then Some txt else find_elem d n)"

text \<open>\<^verbatim>\<open>int(text)\<close> in base ten: surrounding blanks, one sign, digits, single
  underscores between digits, at most 4300 digits (the default limit). \<open>None\<close> stands for
  \<^verbatim>\<open>ValueError\<close>. The blanks \<^verbatim>\<open>int\<close> skips are the ASCII ones and, above 127, the
  Unicode spaces; the separators 0x1C to 0x1F, which \<^verbatim>\<open>strip\<close> removes, are not
  among them.\<close>

definition is_int_space :: "char \<Rightarrow> bool" where
  "is_int_space c = (c \<in> set [CHR 0x09, CHR 0x0A, CHR 0x0B, CHR 0x0C, CHR 0x0D, CHR 0x20,
                               CHR 0x85, CHR 0xA0])"

definition int_strip :: "string \<Rightarrow> string" where
  "int_strip s = rev (dropWhile is_int_space (rev (dropWhile is_int_space s)))"

definition int_max_str_digits :: nat where
  "int_max_str_digits = 4300"

definition is_digit :: "char \<Rightarrow> bool" where
  "is_digit c = (48 \<le> (of_char c :: nat) \<and> (of_char c :: nat) \<le> 57)"

definition digit_val :: "char \<Rightarrow> int" where
  "digit_val c = int (of_char c) - 48"

fun digits_val :: "int \<Rightarrow> string \<Rightarrow> int option" where
  "digits_val acc [] = Some acc"
| "digits_val acc (c # cs) =
     (if is_digit c then digits_val (acc * 10 + digit_val c) cs
      else if c = CHR ''_'' \<and> cs \<noteq> [] \<and> is_digit (hd cs) then digits_val acc cs
      else None)"

definition py_digits :: "string \<Rightarrow> int option" where
  "py_digits s = (case s of [] \<Rightarrow> None
                  | c # cs \<Rightarrow> if is_digit c \<and> length (filter is_digit s) \<le> int_max_str_digits
                             then digits_val (digit_val c) cs else None)"

definition py_int :: "string \<Rightarrow> int option" where
  "py_int s = (case int_strip s of [] \<Rightarrow> None
               | c # cs \<Rightarrow> if c = CHR ''-'' then map_option uminus (py_digits cs)
                          else if c = CHR ''+'' then py_digits cs
                          else py_digits (c # cs))"

section \<open>Tracks and the artist resolver\<close>

text \<open>The object returned by \<^verbatim>\<open>track.artist()\<close>: its \<^verbatim>\<open>title\<close> attribute and
  its \<^verbatim>\<open>str()\<close>.\<close>

record artist_obj =
  a_title :: "string option attr"
  a_str :: string

text \<open>A track: its three structured title attributes, its raw document \<^verbatim>\<open>_data\<close>
  (which may be \<^verbatim>\<open>None\<close>), its key, what \<^verbatim>\<open>track.artist()\<close> does, and whether
  \<^verbatim>\<open>_play_track\<close> obtains a stream URL for it. Each attribute can be missing, and
  its read can raise.\<close>

record track =
  grandparentTitle :: "string option attr"
  originalTitle :: "string option attr"
  parentTitle :: "string option attr"
  data :: "xml option attr"
  ratingKey :: "int attr"
  artist :: "artist_obj option reply"
  has_stream :: bool

text \<open>The server handle \<^verbatim>\<open>self.plex\<close>; \<^verbatim>\<open>fetchItem\<close> reloads a track by key.\<close>

record plex_server =
  fetchItem :: "int \<Rightarrow> track reply"

text \<open>The remote calls, in the order they are attempted.\<close>

datatype call =
    RecentlyAdded int
  | Search "string option" int
  | LibraryAll
  | PlaylistItems "string option"
  | FetchItem int
  | ArtistLookup

text \<open>\<^verbatim>\<open>not artist\<close> for the local variable, which is \<^verbatim>\<open>None\<close> or a string.\<close>

definition falsy :: "string option \<Rightarrow> bool" where
  "falsy a = (a = None \<or> a = Some [])"

text \<open>\<^verbatim>\<open>if hasattr(o, 'x') and o.x: artist = str(o.x).strip()\<close> inside
  \<^verbatim>\<open>try ... except: pass\<close>.\<close>

definition from_attr :: "string option attr \<Rightarrow> string option \<Rightarrow> string option" where
  "from_attr a cur = (case a of
       Has (Some s) \<Rightarrow> if s \<noteq> [] then Some (strip s) else cur
     | _ \<Rightarrow> cur)"

text \<open>The loop of method 2 over the candidate element names: the first element with a
  truthy text is stripped, assigned, and ends the loop.\<close>

fun xml_artist :: "xml \<Rightarrow> string list \<Rightarrow> string option \<Rightarrow> string option" where
  "xml_artist d [] cur = cur"
| "xml_artist d (n # ns) cur =
     (case find_elem d n of
        Some (Some txt) \<Rightarrow> if txt \<noteq> [] then Some (strip txt) else xml_artist d ns cur
      | _ \<Rightarrow> xml_artist d ns cur)"

definition candidates :: "string list" where
  "candidates = [''grandparentTitle'', ''originalTitle'', ''parentTitle'']"

definition method1 :: "track \<Rightarrow> string option \<Rightarrow> string option" where
  "method1 t cur = (if falsy cur then from_attr (grandparentTitle t) cur else cur)"

text \<open>Line 418: the test \<^verbatim>\<open>not artist and hasattr(track, '_data') and track._data\<close>
  stands outside every \<^verbatim>\<open>try\<close>: it has a value, or the read of \<^verbatim>\<open>_data\<close>
  raises and the exception leaves the method.\<close>

definition test_data :: "track \<Rightarrow> string option \<Rightarrow> exn + bool" where
  "test_data t cur =
     (if falsy cur then
        (case data t of
           Raising \<Rightarrow> Inl OtherError
         | Missing \<Rightarrow> Inr False
         | Has None \<Rightarrow> Inr False
         | Has (Some d) \<Rightarrow> Inr (d \<noteq> []))
      else Inr False)"

text \<open>Lines 419-427, entered when the test holds.\<close>

definition method2 :: "track \<Rightarrow> string option \<Rightarrow> string option" where
  "method2 t cur =
     (case data t of
        Has (Some d) \<Rightarrow> xml_artist d candidates cur
      | _ \<Rightarrow> cur)"

definition method3 :: "track \<Rightarrow> string option \<Rightarrow> string option" where
  "method3 t cur = (if falsy cur then from_attr (originalTitle t) cur else cur)"

definition method4 :: "track \<Rightarrow> string option \<Rightarrow> string option" where
  "method4 t cur = (if falsy cur then from_attr (parentTitle t) cur else cur)"

text \<open>What method 5 reads from the reloaded object.\<close>

definition from_reloaded :: "track \<Rightarrow> string option \<Rightarrow> string option" where
  "from_reloaded r cur = (case grandparentTitle r of
       Raising \<Rightarrow> cur
     | Has (Some (c # cs)) \<Rightarrow> Some (strip (c # cs))
     | _ \<Rightarrow> (case data r of
               Has (Some d) \<Rightarrow> if d \<noteq> [] then
                           (case find_elem d ''grandparentTitle'' of
                              Some (Some txt) \<Rightarrow> if txt \<noteq> [] then Some (strip txt) else cur
                            | _ \<Rightarrow> cur)
                         else cur
             | _ \<Rightarrow> cur))"

text \<open>Line 447: the test \<^verbatim>\<open>not artist and hasattr(track, 'ratingKey')\<close>, outside every
  \<^verbatim>\<open>try\<close> as well.\<close>

definition test_key :: "track \<Rightarrow> string option \<Rightarrow> exn + bool" where
  "test_key t cur =
     (if falsy cur then
        (case ratingKey t of
           Raising \<Rightarrow> Inl OtherError
         | Missing \<Rightarrow> Inr False
         | Has k \<Rightarrow> Inr True)
      else Inr False)"

text \<open>Lines 448-458, entered when the test holds; all of it inside a \<^verbatim>\<open>try\<close>.\<close>

definition method5 :: "plex_server option \<Rightarrow> track \<Rightarrow> string option \<Rightarrow> string option \<times> call list" where
  "method5 px t cur =
     (case ratingKey t of
        Has k \<Rightarrow>
          (case px of
             None \<Rightarrow> (cur, [])
           | Some server \<Rightarrow>
               (case fetchItem server k of
                  Raises e \<Rightarrow> (cur, [FetchItem k])
                | Returns r \<Rightarrow> (from_reloaded r cur, [FetchItem k])))
      | _ \<Rightarrow> (cur, []))"

definition from_artist_obj :: "artist_obj \<Rightarrow> string option \<Rightarrow> string option" where
  "from_artist_obj obj cur = (case a_title obj of
       Raising \<Rightarrow> cur
     | Has None \<Rightarrow> None
     | Has (Some s) \<Rightarrow> if s \<noteq> [] then Some (strip s) else None
     | Missing \<Rightarrow> if a_str obj \<noteq> [] then Some (strip (a_str obj)) else None)"

definition method6 :: "track \<Rightarrow> string option \<Rightarrow> string option \<times> call list" where
  "method6 t cur =
     (if falsy cur then
        (case artist t of
           Raises e \<Rightarrow> (cur, [ArtistLookup])
         | Returns None \<Rightarrow> (cur, [ArtistLookup])
         | Returns (Some obj) \<Rightarrow> (from_artist_obj obj cur, [ArtistLookup]))
      else (cur, []))"

text \<open>\<^verbatim>\<open>artist or 'Unknown'\<close>.\<close>

definition or_unknown :: "string option \<Rightarrow> string" where
  "or_unknown a = (case a of None \<Rightarrow> ''Unknown'' | Some s \<Rightarrow> if s = [] then ''Unknown'' else s)"

text \<open>Lines 405-470. Every statement that can raise stands inside a
  \<^verbatim>\<open>try ... except: pass\<close>, except the two tests: the method returns the variable
  \<^verbatim>\<open>artist\<close> after the six methods, with the calls made, or leaves with the exception
  of a test.\<close>

definition resolve :: "plex_server option \<Rightarrow> track \<Rightarrow> exn + (string option \<times> call list)" where
  "resolve px t =
     (let a1 = method1 t None
      in case test_data t a1 of
           Inl e \<Rightarrow> Inl e
         | Inr b2 \<Rightarrow>
             (let a2 = (if b2 then method2 t a1 else a1);
                  a3 = method3 t a2;
                  a4 = method4 t a3
              in case test_key t a4 of
                   Inl e \<Rightarrow> Inl e
                 | Inr b5 \<Rightarrow>
                     (let (a5, c5) = (if b5 then method5 px t a4 else (a4, []));
                          (a6, c6) = method6 t a5
                      in Inr (a6, c5 @ c6))))"

definition get_artist_name :: "plex_server option \<Rightarrow> track \<Rightarrow> (exn + string) \<times> call list" where
  "get_artist_name px t =
     (case resolve px t of
        Inl e \<Rightarrow> (Inl e, [])
      | Inr (a, cs) \<Rightarrow> (Inr (or_unknown a), cs))"

text \<open>Methods 2 and 5 with their tests, for a track whose test does not raise.\<close>

definition tier2 :: "track \<Rightarrow> string option \<Rightarrow> string option" where
  "tier2 t cur = (case test_data t cur of Inr True \<Rightarrow> method2 t cur | _ \<Rightarrow> cur)"

definition tier5 :: "plex_server option \<Rightarrow> track \<Rightarrow> string option \<Rightarrow> string option \<times> call list" where
  "tier5 px t cur = (case test_key t cur of Inr True \<Rightarrow> method5 px t cur | _ \<Rightarrow> (cur, []))"

text \<open>The four methods that read the track object only.\<close>

definition local_methods :: "track \<Rightarrow> string option" where
  "local_methods t = method4 t (method3 t (tier2 t (method1 t None)))"

text \<open>Where the method leaves with an exception: at the test of line 418 or at the test
  of line 447.\<close>

definition raises_outside_try :: "track \<Rightarrow> bool" where
  "raises_outside_try t =
     (falsy (method1 t None) \<and> data t = Raising \<or>
      falsy (local_methods t) \<and> ratingKey t = Raising)"

text \<open>The variable \<^verbatim>\<open>artist\<close> and the calls when no test raises.\<close>

definition chain :: "plex_server option \<Rightarrow> track \<Rightarrow> string option \<times> call list" where
  "chain px t =
     (let a4 = local_methods t;
          (a5, c5) = tier5 px t a4;
          (a6, c6) = method6 t a5
      in (a6, c5 @ c6))"

section \<open>Playlists and the fetch of their tracks\<close>

text \<open>
  What a remote call returns is iterated: it yields its items and then either ends or
  raises, as a lazy sequence whose next page cannot be read does. \<open>Seq xs None\<close> is
  the complete sequence \<open>xs\<close>; \<open>Seq xs (Some e)\<close> raises \<open>e\<close> after the items \<open>xs\<close>.
\<close>

datatype 'a seq = Seq "'a list" "exn option"

record playlist =
  pl_ratingKey :: "string option"
  pl_title :: "string option"
  leafCount :: "int option attr"
  childCount :: "int option attr"
  pl_data :: "xml option"
  items :: "track seq reply"

text \<open>
  \<open>pl_ratingKey\<close> is \<^verbatim>\<open>str(playlist.ratingKey)\<close>, \<open>None\<close> without the attribute;
  \<open>pl_title\<close> is \<^verbatim>\<open>getattr(playlist, 'title', '')\<close>, \<open>None\<close> standing for a
  missing or \<^verbatim>\<open>None\<close> title; \<open>items\<close> is what \<^verbatim>\<open>playlist.items()\<close> does.
  The library section \<^verbatim>\<open>self.music_library\<close> answers three calls; \<open>search\<close>
  takes the \<^verbatim>\<open>sort\<close> argument and \<^verbatim>\<open>maxresults\<close>.
\<close>

record library =
  recentlyAdded :: "int \<Rightarrow> track seq reply"
  search :: "string option \<Rightarrow> int \<Rightarrow> track seq reply"
  all_tracks :: "track seq reply"

definition LARGE_PLAYLIST_THRESHOLD :: int where "LARGE_PLAYLIST_THRESHOLD = 1000"
definition LARGE_PLAYLIST_LIMIT :: int where "LARGE_PLAYLIST_LIMIT = 50"
definition REGULAR_PLAYLIST_LIMIT :: int where "REGULAR_PLAYLIST_LIMIT = 100"
definition MAX_API_RESULTS :: int where "MAX_API_RESULTS = 1000"

text \<open>Lines 261-273: the count, from \<^verbatim>\<open>leafCount\<close>, else \<^verbatim>\<open>childCount\<close>, else
  the raw document; any exception leaves it \<^verbatim>\<open>None\<close>.\<close>

definition count_from_data :: "xml option \<Rightarrow> int option" where
  "count_from_data x = (case x of
       None \<Rightarrow> None
     | Some d \<Rightarrow> if d \<noteq> [] then
                  (case find_elem d ''leafCount'' of
                     Some (Some txt) \<Rightarrow> if txt \<noteq> [] then py_int txt else None
                   | _ \<Rightarrow> None)
                else None)"

definition playlist_count :: "playlist \<Rightarrow> int option" where
  "playlist_count p = (case leafCount p of
       Has v \<Rightarrow> v
     | Raising \<Rightarrow> None
     | Missing \<Rightarrow> (case childCount p of
                     Has v \<Rightarrow> v
                   | Raising \<Rightarrow> None
                   | Missing \<Rightarrow> count_from_data (pl_data p)))"

text \<open>Line 276: \<^verbatim>\<open>playlist_count and playlist_count > LARGE_PLAYLIST_THRESHOLD\<close>.\<close>

definition is_large_playlist :: "int option \<Rightarrow> bool" where
  "is_large_playlist c = (case c of None \<Rightarrow> False
                          | Some n \<Rightarrow> n \<noteq> 0 \<and> n > LARGE_PLAYLIST_THRESHOLD)"

text \<open>Lines 277-281: the limit (the argument when one is passed) and the API limit.\<close>

definition the_limit :: "int option \<Rightarrow> int option \<Rightarrow> int" where
  "the_limit lim c = (case lim of
       None \<Rightarrow> if is_large_playlist c then LARGE_PLAYLIST_LIMIT else REGULAR_PLAYLIST_LIMIT
     | Some l \<Rightarrow> l)"

definition api_limit :: "int \<Rightarrow> int" where
  "api_limit limit = min limit MAX_API_RESULTS"

text \<open>Line 301: the title test of the special case.\<close>

definition recent_title :: "string option \<Rightarrow> bool" where
  "recent_title t = (case t of None \<Rightarrow> False
                     | Some s \<Rightarrow> s \<noteq> [] \<and> contains ''Recently Added'' s)"

text \<open>The loop \<^verbatim>\<open>for i, track in enumerate(xs): if i < limit: tracks.append(track)
  else: break\<close> over a sequence that raises \<open>failure\<close> after its items: the list
  \<^verbatim>\<open>tracks\<close> as the loop leaves it, and the exception if the loop was left by one.\<close>

fun collect :: "int \<Rightarrow> int \<Rightarrow> 'a list \<Rightarrow> exn option \<Rightarrow> 'a list \<Rightarrow> 'a list \<times> exn option" where
  "collect limit i [] failure tracks = (tracks, failure)"
| "collect limit i (x # xs) failure tracks =
     (if i < limit then collect limit (i + 1) xs failure (tracks @ [x]) else (tracks, None))"

definition loop_into :: "int \<Rightarrow> 'a seq \<Rightarrow> 'a list \<Rightarrow> 'a list \<times> exn option" where
  "loop_into limit sq tracks = (case sq of Seq xs failure \<Rightarrow> collect limit 0 xs failure tracks)"

text \<open>\<^verbatim>\<open>list(all_tracks)\<close>.\<close>

definition materialise :: "'a seq \<Rightarrow> exn + 'a list" where
  "materialise sq = (case sq of Seq xs None \<Rightarrow> Inr xs | Seq xs (Some e) \<Rightarrow> Inl e)"

text \<open>The slice \<^verbatim>\<open>tracks[:limit]\<close>.\<close>

definition slice_to :: "'a list \<Rightarrow> int \<Rightarrow> 'a list" where
  "slice_to xs limit = (if 0 \<le> limit then take (nat limit) xs
                        else take (length xs - nat (- limit)) xs)"

text \<open>A fetch yields the calls it attempted and either the exception that leaves the
  \<^verbatim>\<open>try\<close> block or the list \<^verbatim>\<open>tracks\<close>.\<close>

type_synonym fetched = "call list \<times> (exn + track list)"

text \<open>Lines 369-376 (and the two fallbacks 320-327, 358-365): the playlist's own items
  are appended to the list \<^verbatim>\<open>tracks\<close> as it stands; line 293 is its only reset. An
  exception here leaves the outer \<^verbatim>\<open>try\<close>.\<close>

definition playlist_method :: "playlist \<Rightarrow> int \<Rightarrow> track list \<Rightarrow> fetched" where
  "playlist_method p limit tracks =
     ([PlaylistItems (pl_ratingKey p)],
      case items p of
        Raises e \<Rightarrow> Inl e
      | Returns sq \<Rightarrow>
          (case loop_into limit sq tracks of
             (ts, None) \<Rightarrow> Inr ts
           | (ts, Some e) \<Rightarrow> Inl e))"

definition after_calls :: "call list \<Rightarrow> fetched \<Rightarrow> fetched" where
  "after_calls cs f = (cs @ fst f, snd f)"

text \<open>The loops of lines 310-314 and 348-352 over what a library call returned, after the
  calls \<open>cs\<close>: when the sequence raises part-way, the handler (lines 316-327, 354-365)
  goes on with the playlist's items on the tracks appended so far.\<close>

definition library_loop :: "call list \<Rightarrow> track seq \<Rightarrow> playlist \<Rightarrow> int \<Rightarrow> fetched" where
  "library_loop cs sq p limit =
     (case loop_into limit sq [] of
        (ts, None) \<Rightarrow> (cs, Inr ts)
      | (ts, Some e) \<Rightarrow> after_calls cs (playlist_method p limit ts))"

text \<open>Lines 302-327: the recently-added special case.\<close>

definition recent_method :: "library \<Rightarrow> playlist \<Rightarrow> int \<Rightarrow> fetched" where
  "recent_method lib p limit =
     (case recentlyAdded lib (api_limit limit) of
        Returns sq \<Rightarrow> library_loop [RecentlyAdded (api_limit limit)] sq p limit
      | Raises AttributeError \<Rightarrow>
          (case search lib (Some ''addedAt:desc'') (api_limit limit) of
             Returns sq \<Rightarrow>
               library_loop
                 [RecentlyAdded (api_limit limit), Search (Some ''addedAt:desc'') (api_limit limit)]
                 sq p limit
           | Raises e \<Rightarrow>
               after_calls
                 [RecentlyAdded (api_limit limit), Search (Some ''addedAt:desc'') (api_limit limit)]
                 (playlist_method p limit []))
      | Raises OtherError \<Rightarrow>
          after_calls [RecentlyAdded (api_limit limit)] (playlist_method p limit []))"

text \<open>Lines 344-365: the handler of the library search, \<^verbatim>\<open>library.all()\<close>. It starts
  with the empty \<^verbatim>\<open>tracks\<close>: the search assigns the list only once it is complete.\<close>

definition all_method :: "library \<Rightarrow> playlist \<Rightarrow> int \<Rightarrow> fetched" where
  "all_method lib p limit =
     (case all_tracks lib of
        Returns sq \<Rightarrow> library_loop [Search None (api_limit limit), LibraryAll] sq p limit
      | Raises e2 \<Rightarrow>
          after_calls [Search None (api_limit limit), LibraryAll] (playlist_method p limit []))"

text \<open>Lines 331-365: the library method for large playlists.\<close>

definition library_method :: "library \<Rightarrow> playlist \<Rightarrow> int \<Rightarrow> fetched" where
  "library_method lib p limit =
     (case search lib None (api_limit limit) of
        Returns sq \<Rightarrow>
          (case materialise sq of
             Inr xs \<Rightarrow>
               ([Search None (api_limit limit)],
                Inr (if int (length xs) > limit then slice_to xs limit else xs))
           | Inl e \<Rightarrow> all_method lib p limit)
      | Raises e \<Rightarrow> all_method lib p limit)"

text \<open>Lines 275-380. Without a library handle both library conditions are false.\<close>

definition fetch_tracks :: "library option \<Rightarrow> playlist \<Rightarrow> int option \<Rightarrow> fetched" where
  "fetch_tracks ml p lim =
     (let declared = playlist_count p;
          limit = the_limit lim declared
      in case ml of
           None \<Rightarrow> playlist_method p limit []
         | Some lib \<Rightarrow>
             if recent_title (pl_title p) then recent_method lib p limit
             else if is_large_playlist declared then library_method lib p limit
             else playlist_method p limit [])"

text \<open>The three branches of lines 301, 328 and 366, named.\<close>

datatype strategy = RECENT_FEED | LARGE_LIBRARY_SCAN | DIRECT_ENUMERATION

definition select_strategy :: "string option \<Rightarrow> int option \<Rightarrow> bool \<Rightarrow> strategy" where
  "select_strategy title declared has_library =
     (if recent_title title \<and> has_library then RECENT_FEED
      else if is_large_playlist declared \<and> has_library then LARGE_LIBRARY_SCAN
      else DIRECT_ENUMERATION)"

text \<open>The selection in the words of the specification.\<close>

definition spec_strategy :: "string option \<Rightarrow> int option \<Rightarrow> bool \<Rightarrow> strategy" where
  "spec_strategy title declared has_library =
     (if (\<exists>t pre post. title = Some t \<and> t = pre @ ''Recently Added'' @ post) \<and> has_library
        then RECENT_FEED
      else if (\<exists>n. declared = Some n \<and> n > 1000) \<and> has_library then LARGE_LIBRARY_SCAN
      else DIRECT_ENUMERATION)"

section \<open>The application object\<close>

text \<open>
  Python lists are mutable objects shared by reference: \<^verbatim>\<open>self.current_playlist\<close> and
  the entries of \<^verbatim>\<open>self.tracks_cache\<close> are addresses into \<open>store\<close>, and a fetch
  allocates the address \<open>next_addr\<close> for its list \<^verbatim>\<open>tracks\<close>. \<open>calls\<close> logs the
  remote calls attempted so far. \<open>player_found\<close> and \<open>can_signal\<close> stand for the
  environment: whether \<^verbatim>\<open>ffplay\<close> can be started, and whether the pause signal can be
  sent (not on Windows). \<open>current_process\<close> tells whether a process handle is held.
\<close>

type_synonym addr = nat

record app =
  plex :: "plex_server option"
  music_library :: "library option"
  current_track :: "track option"
  current_playlist :: addr
  current_index :: int
  is_playing :: bool
  current_process :: bool
  playlist_cache :: "string \<rightharpoonup> playlist"
  tracks_cache :: "string \<rightharpoonup> addr"
  highlighted_playlist :: "playlist option"
  highlighted_playlist_key :: "string option"
  player_found :: bool
  can_signal :: bool
  store :: "addr \<Rightarrow> track list"
  next_addr :: addr
  calls :: "call list"

text \<open>The object after \<^verbatim>\<open>__init__\<close> and \<^verbatim>\<open>on_mount\<close>: the handles and the playlist
  cache are what the server gave; \<^verbatim>\<open>current_playlist\<close> is a fresh empty list.\<close>

definition startup ::
  "plex_server option \<Rightarrow> library option \<Rightarrow> (string \<rightharpoonup> playlist) \<Rightarrow> bool \<Rightarrow> bool \<Rightarrow> app" where
  "startup px ml pc pf sg =
     \<lparr>plex = px, music_library = ml, current_track = None, current_playlist = 0,
      current_index = 0, is_playing = False, current_process = False, playlist_cache = pc,
      tracks_cache = Map.empty, highlighted_playlist = None, highlighted_playlist_key = None,
      player_found = pf, can_signal = sg, store = (\<lambda>a. []), next_addr = 1, calls = []\<rparr>"

text \<open>The list \<^verbatim>\<open>self.current_playlist\<close>.\<close>

definition playlist_now :: "app \<Rightarrow> track list" where
  "playlist_now s = store s (current_playlist s)"

text \<open>\<^verbatim>\<open>xs[i]\<close>, \<open>None\<close> for \<^verbatim>\<open>IndexError\<close>.\<close>

definition py_index :: "'a list \<Rightarrow> int \<Rightarrow> 'a option" where
  "py_index xs i =
     (if 0 \<le> i \<and> i < int (length xs) then Some (xs ! nat i)
      else if - int (length xs) \<le> i \<and> i < 0 then Some (xs ! nat (int (length xs) + i))
      else None)"

text \<open>\<^verbatim>\<open>random.shuffle\<close>: for \<open>i\<close> from the last index down to 1, exchange \<open>x[i]\<close>
  with \<open>x[j]\<close>, \<open>j\<close> drawn below \<open>i + 1\<close>. The draws come from the list \<open>rs\<close>.\<close>

definition randbelow :: "nat \<Rightarrow> nat list \<Rightarrow> nat" where
  "randbelow n rs = (case rs of [] \<Rightarrow> 0 | r # _ \<Rightarrow> r mod n)"

fun shuffle_loop :: "nat \<Rightarrow> nat list \<Rightarrow> 'a list \<Rightarrow> 'a list" where
  "shuffle_loop 0 rs x = x"
| "shuffle_loop (Suc i) rs x =
     (let j = randbelow (Suc i + 1) rs
      in shuffle_loop i (tl rs) (x[Suc i := x ! j, j := x ! Suc i]))"

definition shuffle :: "nat list \<Rightarrow> 'a list \<Rightarrow> 'a list" where
  "shuffle rs x = shuffle_loop (length x - 1) rs x"

text \<open>Lines 472-512: the display resolves the artist of the first 20 tracks, each
  inside a \<^verbatim>\<open>try\<close>.\<close>

definition display_calls :: "plex_server option \<Rightarrow> track list \<Rightarrow> call list" where
  "display_calls px tracks = concat (map (\<lambda>t. snd (get_artist_name px t)) (take 20 tracks))"

definition update_playlist_display :: "track list \<Rightarrow> app \<Rightarrow> app" where
  "update_playlist_display tracks s = s\<lparr>calls := calls s @ display_calls (plex s) tracks\<rparr>"

text \<open>Lines 522-575. The whole body stands in a \<^verbatim>\<open>try\<close>: an exception of the artist
  resolver ends it before the player is started.\<close>

definition play_track :: "track \<Rightarrow> app \<Rightarrow> app" where
  "play_track t s =
     (if \<not> has_stream t then s
      else let s1 = s\<lparr>calls := calls s @ snd (get_artist_name (plex s) t)\<rparr>
           in case fst (get_artist_name (plex s) t) of
                Inl e \<Rightarrow> s1
              | Inr name \<Rightarrow>
                  if \<not> player_found s then s1
                  else s1\<lparr>current_process := True, current_track := Some t,
                          is_playing := True\<rparr>)"

text \<open>Line 251: \<^verbatim>\<open>playlist_key and playlist_key in self.tracks_cache\<close>.\<close>

definition cached :: "string option \<Rightarrow> (string \<rightharpoonup> addr) \<Rightarrow> addr option" where
  "cached key c = (case key of None \<Rightarrow> None | Some k \<Rightarrow> if k = [] then None else c k)"

text \<open>Lines 385-386: \<^verbatim>\<open>if playlist_key: self.tracks_cache[playlist_key] = tracks\<close>.\<close>

definition cache_put :: "string option \<Rightarrow> addr \<Rightarrow> (string \<rightharpoonup> addr) \<Rightarrow> (string \<rightharpoonup> addr)" where
  "cache_put key a c = (case key of None \<Rightarrow> c | Some k \<Rightarrow> if k = [] then c else c(k \<mapsto> a))"

text \<open>Lines 243-403.\<close>

definition load_playlist_tracks :: "playlist \<Rightarrow> int option \<Rightarrow> app \<Rightarrow> app" where
  "load_playlist_tracks p lim s =
     (case cached (pl_ratingKey p) (tracks_cache s) of
        Some a \<Rightarrow>
          update_playlist_display (store s a) (s\<lparr>current_playlist := a, current_index := 0\<rparr>)
      | None \<Rightarrow>
          (case fetch_tracks (music_library s) p lim of
             (cs, Inl e) \<Rightarrow> s\<lparr>calls := calls s @ cs\<rparr>
           | (cs, Inr tracks) \<Rightarrow>
               update_playlist_display tracks
                 (s\<lparr>calls := calls s @ cs,
                    store := (store s)(next_addr s := tracks),
                    next_addr := Suc (next_addr s),
                    tracks_cache := cache_put (pl_ratingKey p) (next_addr s) (tracks_cache s),
                    current_playlist := next_addr s,
                    current_index := 0\<rparr>)))"

text \<open>Lines 662-672.\<close>

definition action_next :: "app \<Rightarrow> app" where
  "action_next s =
     (if playlist_now s \<noteq> [] \<and> current_index s < int (length (playlist_now s)) - 1 then
        (let s1 = s\<lparr>current_index := current_index s + 1\<rparr>
         in case py_index (playlist_now s1) (current_index s1) of
              None \<Rightarrow> s1
            | Some t \<Rightarrow> play_track t s1)
      else s)"

definition action_previous :: "app \<Rightarrow> app" where
  "action_previous s =
     (if playlist_now s \<noteq> [] \<and> current_index s > 0 then
        (let s1 = s\<lparr>current_index := current_index s - 1\<rparr>
         in case py_index (playlist_now s1) (current_index s1) of
              None \<Rightarrow> s1
            | Some t \<Rightarrow> play_track t s1)
      else s)"

text \<open>Lines 684-690.\<close>

definition action_random :: "nat list \<Rightarrow> app \<Rightarrow> app" where
  "action_random rs s =
     (if playlist_now s \<noteq> [] then
        (let s1 = s\<lparr>store := (store s)(current_playlist s := shuffle rs (playlist_now s)),
                    current_index := 0\<rparr>
         in play_track (hd (playlist_now s1)) s1)
      else s)"

text \<open>Lines 632-660.\<close>

definition action_play_pause :: "nat list \<Rightarrow> app \<Rightarrow> app" where
  "action_play_pause rs s =
     (if current_process s then
        (if can_signal s then s\<lparr>is_playing := \<not> is_playing s\<rparr> else s)
      else if playlist_now s \<noteq> [] then
        (let s1 = s\<lparr>current_index := 0\<rparr> in play_track (hd (playlist_now s1)) s1)
      else
        (case highlighted_playlist s of
           None \<Rightarrow> s
         | Some p \<Rightarrow>
             (let s1 = load_playlist_tracks p None s
              in if playlist_now s1 \<noteq> [] then
                   (let s2 = (if length (playlist_now s1) > 50
                              then s1\<lparr>store := (store s1)
                                        (current_playlist s1 := shuffle rs (playlist_now s1))\<rparr>
                              else s1);
                        s3 = s2\<lparr>current_index := 0\<rparr>
                    in play_track (hd (playlist_now s3)) s3)
                 else s1)))"

text \<open>Lines 674-682.\<close>

definition action_load_playlist :: "app \<Rightarrow> app" where
  "action_load_playlist s =
     (case highlighted_playlist s of
        Some p \<Rightarrow> load_playlist_tracks p None s
      | None \<Rightarrow>
          (case highlighted_playlist_key s of
             None \<Rightarrow> s
           | Some k \<Rightarrow>
               if k = [] then s
               else (case playlist_cache s k of
                       None \<Rightarrow> s
                     | Some p \<Rightarrow>
                         load_playlist_tracks p None (s\<lparr>highlighted_playlist := Some p\<rparr>))))"

text \<open>Lines 194-241, for a list item \<^verbatim>\<open>playlist-<key>\<close>.\<close>

definition on_list_view_highlighted :: "string \<Rightarrow> app \<Rightarrow> app" where
  "on_list_view_highlighted k s =
     s\<lparr>highlighted_playlist_key := Some k, highlighted_playlist := playlist_cache s k\<rparr>"

definition on_list_view_selected :: "string \<Rightarrow> app \<Rightarrow> app" where
  "on_list_view_selected k s =
     (let s1 = s\<lparr>highlighted_playlist_key := Some k\<rparr>
      in case playlist_cache s k of
           None \<Rightarrow> s1
         | Some p \<Rightarrow>
             (let s2 = s1\<lparr>highlighted_playlist := Some p\<rparr>;
                  s3 = (if current_process s2
                        then s2\<lparr>current_process := False, is_playing := False\<rparr> else s2)
              in load_playlist_tracks p None s3))"

text \<open>What the user and the server can do between two states: the key bindings, the two
  list events for playlists, the start of one track picked from a list
  (\<^verbatim>\<open>_play_track_by_key\<close>), and a change of what the server handles answer.\<close>

datatype event =
    Next | Previous | Random "nat list" | PlayPause "nat list" | LoadPlaylist
  | Highlighted string | Selected string | PlayTrack track
  | ServerNow "plex_server option" "library option" "string \<rightharpoonup> playlist"

fun step :: "app \<Rightarrow> event \<Rightarrow> app" where
  "step s Next = action_next s"
| "step s Previous = action_previous s"
| "step s (Random rs) = action_random rs s"
| "step s (PlayPause rs) = action_play_pause rs s"
| "step s LoadPlaylist = action_load_playlist s"
| "step s (Highlighted k) = on_list_view_highlighted k s"
| "step s (Selected k) = on_list_view_selected k s"
| "step s (PlayTrack t) = play_track t s"
| "step s (ServerNow px ml pc) = s\<lparr>plex := px, music_library := ml, playlist_cache := pc\<rparr>"

definition run :: "app \<Rightarrow> event list \<Rightarrow> app" where
  "run s evs = foldl step s evs"

text \<open>The cursor is a valid index of the current list; on an empty list it is 0.\<close>

definition cursor_ok :: "app \<Rightarrow> bool" where
  "cursor_ok s = (0 \<le> current_index s \<and>
                  current_index s < max 1 (int (length (playlist_now s))))"

text \<open>The method that runs under each strategy.\<close>

definition run_strategy :: "strategy \<Rightarrow> library option \<Rightarrow> playlist \<Rightarrow> int \<Rightarrow> fetched" where
  "run_strategy st ml p limit = (case (st, ml) of
       (RECENT_FEED, Some lib) \<Rightarrow> recent_method lib p limit
     | (LARGE_LIBRARY_SCAN, Some lib) \<Rightarrow> library_method lib p limit
     | _ \<Rightarrow> playlist_method p limit [])"

text \<open>The raw-document tier in the words of the specification: the text of the first
  candidate name, in order, whose element carries a non-empty text.\<close>

fun first_text :: "xml \<Rightarrow> string list \<Rightarrow> string option" where
  "first_text d [] = None"
| "first_text d (n # ns) =
     (case find_elem d n of
        Some (Some (c # cs)) \<Rightarrow> Some (c # cs)
      | _ \<Rightarrow> first_text d ns)"

text \<open>The value of \<^verbatim>\<open>artist\<close> after each of the six methods; the tiers are
  exhausted when each left it empty.\<close>

definition tiers :: "plex_server option \<Rightarrow> track \<Rightarrow> string option list" where
  "tiers px t =
     (let a1 = method1 t None;
          a2 = tier2 t a1;
          a3 = method3 t a2;
          a4 = method4 t a3;
          a5 = fst (tier5 px t a4);
          a6 = fst (method6 t a5)
      in [a1, a2, a3, a4, a5, a6])"

definition exhausted :: "plex_server option \<Rightarrow> track \<Rightarrow> bool" where
  "exhausted px t = list_all falsy (tiers px t)"

text \<open>A reply whose sequence, if it returns one, does not raise part-way.\<close>

definition unbroken :: "'a seq reply \<Rightarrow> bool" where
  "unbroken r = (case r of Returns (Seq xs (Some e)) \<Rightarrow> False | _ \<Rightarrow> True)"

section \<open>Objects for the scenarios\<close>

definition server_down :: plex_server where
  "server_down = \<lparr>fetchItem = (\<lambda>k. Raises OtherError)\<rparr>"

definition band_track :: track where
  "band_track = \<lparr>grandparentTitle = Has (Some ''Band X''), originalTitle = Missing,
     parentTitle = Missing, data = Missing, ratingKey = Has 1, artist = Raises OtherError,
     has_stream = True\<rparr>"

definition bare_track :: track where
  "bare_track = \<lparr>grandparentTitle = Raising, originalTitle = Raising,
     parentTitle = Raising, data = Missing, ratingKey = Has 7, artist = Raises OtherError,
     has_stream = True\<rparr>"

definition unknown_track :: track where
  "unknown_track = \<lparr>grandparentTitle = Has (Some ''Unknown''), originalTitle = Missing,
     parentTitle = Missing, data = Missing, ratingKey = Has 2, artist = Raises OtherError,
     has_stream = True\<rparr>"

definition raw_track :: track where
  "raw_track = \<lparr>grandparentTitle = Missing, originalTitle = Missing,
     parentTitle = Missing, data = Has (Some [(''originalTitle'', Some '' Band X '')]),
     ratingKey = Has 7, artist = Raises OtherError, has_stream = True\<rparr>"

definition blank_raw_track :: track where
  "blank_raw_track = \<lparr>grandparentTitle = Missing, originalTitle = Missing,
     parentTitle = Missing,
     data = Has (Some [(''grandparentTitle'', Some ''  ''), (''originalTitle'', Some ''Band X'')]),
     ratingKey = Has 7, artist = Raises OtherError, has_stream = True\<rparr>"

text \<open>A track whose raw document cannot be read.\<close>

definition veiled_track :: track where
  "veiled_track = \<lparr>grandparentTitle = Missing, originalTitle = Has (Some ''Band X''),
     parentTitle = Missing, data = Raising, ratingKey = Has 9, artist = Raises OtherError,
     has_stream = True\<rparr>"

text \<open>A library that answers every call with 200 tracks, and the playlist of the
  scenario P1: 5000 tracks declared.\<close>

definition lib200 :: library where
  "lib200 = \<lparr>recentlyAdded = (\<lambda>n. Returns (Seq (replicate 200 band_track) None)),
              search = (\<lambda>srt n. Returns (Seq (replicate 200 band_track) None)),
              all_tracks = Returns (Seq (replicate 200 band_track) None)\<rparr>"

definition big_mix :: playlist where
  "big_mix = \<lparr>pl_ratingKey = Some ''P1'', pl_title = Some ''Big Mix'',
               leafCount = Has (Some 5000), childCount = Missing, pl_data = None,
               items = Returns (Seq (replicate 300 band_track) None)\<rparr>"

text \<open>A library whose recently-added sequence raises after 80 tracks, and a playlist
  "Recently Added" of 100 tracks.\<close>

definition lib_breaking :: library where
  "lib_breaking = \<lparr>recentlyAdded = (\<lambda>n. Returns (Seq (replicate 80 band_track) (Some OtherError))),
                    search = (\<lambda>srt n. Raises OtherError),
                    all_tracks = Raises OtherError\<rparr>"

definition recent_hundred :: playlist where
  "recent_hundred = \<lparr>pl_ratingKey = Some ''P8'', pl_title = Some ''Recently Added'',
                      leafCount = Has None, childCount = Missing, pl_data = None,
                      items = Returns (Seq (replicate 100 raw_track) None)\<rparr>"

text \<open>The \<^verbatim>\<open>maxresults\<close> arguments sent to the library, in call order.\<close>

fun limit_sent :: "call \<Rightarrow> int list" where
  "limit_sent (RecentlyAdded n) = [n]"
| "limit_sent (Search srt n) = [n]"
| "limit_sent c = []"

definition limits_sent :: "call list \<Rightarrow> int list" where
  "limits_sent cs = concat (map limit_sent cs)"

text \<open>The playlist of the scenario P2, with no declared count, and three libraries: one
  without the recently-added accessor, one whose sorted search fails too, and one whose
  accessor fails with another error.\<close>

definition recent_list :: playlist where
  "recent_list = \<lparr>pl_ratingKey = Some ''P2'', pl_title = Some ''Recently Added'',
                   leafCount = Has None, childCount = Missing, pl_data = None,
                   items = Returns (Seq [band_track] None)\<rparr>"

definition lib_unavailable :: library where
  "lib_unavailable = \<lparr>recentlyAdded = (\<lambda>n. Raises AttributeError),
                       search = (\<lambda>srt n. Returns (Seq [raw_track, band_track] None)),
                       all_tracks = Raises OtherError\<rparr>"

definition lib_failing :: library where
  "lib_failing = \<lparr>recentlyAdded = (\<lambda>n. Raises AttributeError),
                   search = (\<lambda>srt n. Raises OtherError),
                   all_tracks = Raises OtherError\<rparr>"

definition lib_down :: library where
  "lib_down = \<lparr>recentlyAdded = (\<lambda>n. Raises OtherError),
                search = (\<lambda>srt n. Returns (Seq [raw_track, band_track] None)),
                all_tracks = Raises OtherError\<rparr>"

text \<open>The calls that fetch tracks, as opposed to the two calls of the artist resolver.\<close>

fun is_fetch_call :: "call \<Rightarrow> bool" where
  "is_fetch_call (FetchItem k) = False"
| "is_fetch_call ArtistLookup = False"
| "is_fetch_call c = True"

definition fetch_calls :: "app \<Rightarrow> call list" where
  "fetch_calls s = filter is_fetch_call (calls s)"

text \<open>A playlist of one track without any local artist field, a playlist whose item
  accessor raises, and the application right after start.\<close>

definition one_bare :: playlist where
  "one_bare = \<lparr>pl_ratingKey = Some ''P3'', pl_title = Some ''Bare'',
                leafCount = Has (Some 1), childCount = Missing, pl_data = None,
                items = Returns (Seq [bare_track] None)\<rparr>"

definition broken_list :: playlist where
  "broken_list = \<lparr>pl_ratingKey = Some ''P4'', pl_title = Some ''Broken'',
                leafCount = Has (Some 1), childCount = Missing, pl_data = None,
                items = Raises OtherError\<rparr>"

definition fresh :: app where
  "fresh = startup (Some server_down) (Some lib200) Map.empty True True"

text \<open>A playlist of three tracks, the application started with it in the sidebar, and a
  state in which a list of 51 tracks is cached while no list is loaded and nothing plays.\<close>

definition trio :: playlist where
  "trio = \<lparr>pl_ratingKey = Some ''P5'', pl_title = Some ''Trio'',
            leafCount = Has (Some 3), childCount = Missing, pl_data = None,
            items = Returns (Seq [band_track, raw_track, unknown_track] None)\<rparr>"

definition session :: app where
  "session = startup (Some server_down) (Some lib200) [''P5'' \<mapsto> trio] True True"

definition parked :: app where
  "parked = session\<lparr>tracks_cache := [''P1'' \<mapsto> 5],
                      store := (\<lambda>a. [])(5 := band_track # replicate 50 raw_track),
                      next_addr := 6,
                      highlighted_playlist := Some big_mix\<rparr>"

text \<open>The addresses in use lie below the next one to allocate.\<close>

definition addr_ok :: "app \<Rightarrow> bool" where
  "addr_ok s = (current_playlist s < next_addr s \<and> (\<forall>a \<in> ran (tracks_cache s). a < next_addr s))"

section \<open>The fetch\<close>

lemma collect_eq:
  "collect limit i xs failure acc =
     (acc @ take (nat (limit - i)) xs, if length xs \<le> nat (limit - i) then failure else None)"
proof (induction xs arbitrary: i acc)
  case Nil then show ?case by simp
next
  case (Cons x xs)
  show ?case
  proof (cases "i < limit")
    case True
    then have "nat (limit - i) = Suc (nat (limit - (i + 1)))" by simp
    with True Cons show ?thesis by simp
  next
    case False then show ?thesis by simp
  qed
qed

lemma loop_into_eq:
  "loop_into limit (Seq xs failure) acc =
     (acc @ take (nat limit) xs, if length xs \<le> nat limit then failure else None)"
  by (simp add: loop_into_def collect_eq)

lemma loop_into_fst: "fst (loop_into limit sq acc) = acc @ take (nat limit) (case sq of Seq xs f \<Rightarrow> xs)"
  by (cases sq) (simp add: loop_into_eq)

lemma loop_into_complete: "unbroken (Returns sq) \<Longrightarrow> snd (loop_into limit sq acc) = None"
  by (cases sq) (simp add: loop_into_eq unbroken_def split: option.splits)

text \<open>What the cap does bound: the playlist's items add at most \<open>limit\<close> tracks to the
  list they are appended to, so a fetch holds at most twice the cap, and at most the cap
  when no returned sequence raises part-way.\<close>

lemma playlist_method_adds:
  assumes "snd (playlist_method p limit acc) = Inr tracks"
  shows "length tracks \<le> length acc + nat limit"
proof (cases "items p")
  case (Raises e)
  with assms show ?thesis by (simp add: playlist_method_def)
next
  case (Returns sq)
  obtain ts f where l: "loop_into limit sq acc = (ts, f)" by (cases "loop_into limit sq acc")
  with assms Returns have "tracks = ts" by (cases f) (simp_all add: playlist_method_def)
  with l loop_into_fst [of limit sq acc] show ?thesis by simp
qed

lemma library_loop_adds:
  assumes "snd (library_loop cs sq p limit) = Inr tracks"
  shows "length tracks \<le> 2 * nat limit"
proof -
  obtain ts f where l: "loop_into limit sq [] = (ts, f)" by (cases "loop_into limit sq []")
  with loop_into_fst [of limit sq "[]"] have b: "length ts \<le> nat limit" by simp
  show ?thesis
  proof (cases f)
    case None
    with assms l b show ?thesis by (simp add: library_loop_def)
  next
    case (Some e)
    with assms l have "snd (playlist_method p limit ts) = Inr tracks"
      by (simp add: library_loop_def after_calls_def)
    from playlist_method_adds [OF this] b show ?thesis by simp
  qed
qed

lemma library_loop_complete:
  assumes "snd (library_loop cs sq p limit) = Inr tracks" and "unbroken (Returns sq)"
  shows "length tracks \<le> nat limit"
proof -
  obtain ts f where l: "loop_into limit sq [] = (ts, f)" by (cases "loop_into limit sq []")
  with loop_into_fst [of limit sq "[]"] have b: "length ts \<le> nat limit" by simp
  from l loop_into_complete [OF assms(2), of limit "[]"] have "f = None" by simp
  with assms(1) l b show ?thesis by (simp add: library_loop_def)
qed

lemma recent_method_twice:
  "snd (recent_method lib p limit) = Inr tracks \<Longrightarrow> length tracks \<le> 2 * nat limit"
  by (auto simp: recent_method_def after_calls_def split: reply.splits exn.splits
      dest: playlist_method_adds library_loop_adds)

lemma all_method_twice:
  "snd (all_method lib p limit) = Inr tracks \<Longrightarrow> length tracks \<le> 2 * nat limit"
  by (auto simp: all_method_def after_calls_def split: reply.splits
      dest: playlist_method_adds library_loop_adds)

lemma library_method_twice:
  "0 \<le> limit \<Longrightarrow> snd (library_method lib p limit) = Inr tracks \<Longrightarrow>
   length tracks \<le> 2 * nat limit"
  by (auto simp: library_method_def slice_to_def split: reply.splits sum.splits if_splits
      dest: all_method_twice)

lemma fetch_length_twice:
  assumes "snd (fetch_tracks ml p lim) = Inr tracks"
    and "0 \<le> the_limit lim (playlist_count p)"
  shows "int (length tracks) \<le> 2 * the_limit lim (playlist_count p)"
proof -
  have "length tracks \<le> 2 * nat (the_limit lim (playlist_count p))"
    using assms
    by (auto simp: fetch_tracks_def Let_def split: option.splits if_splits
        dest: playlist_method_adds recent_method_twice library_method_twice)
  with assms(2) show ?thesis by simp
qed

lemma recent_method_complete:
  assumes "snd (recent_method lib p limit) = Inr tracks"
    and "\<And>n. unbroken (recentlyAdded lib n)" and "\<And>srt n. unbroken (search lib srt n)"
  shows "length tracks \<le> nat limit"
  using assms(1) assms(2) [of "api_limit limit"] assms(3) [of "Some ''addedAt:desc''" "api_limit limit"]
  by (auto simp: recent_method_def after_calls_def split: reply.splits exn.splits
      dest: playlist_method_adds library_loop_complete)

lemma all_method_complete:
  assumes "snd (all_method lib p limit) = Inr tracks" and "unbroken (all_tracks lib)"
  shows "length tracks \<le> nat limit"
  using assms
  by (auto simp: all_method_def after_calls_def split: reply.splits
      dest: playlist_method_adds library_loop_complete)

lemma library_method_complete:
  assumes "snd (library_method lib p limit) = Inr tracks" and "0 \<le> limit"
    and "unbroken (all_tracks lib)"
  shows "length tracks \<le> nat limit"
  using assms
  by (auto simp: library_method_def slice_to_def split: reply.splits sum.splits if_splits
      dest: all_method_complete)

lemma fetch_length_complete:
  assumes "snd (fetch_tracks ml p lim) = Inr tracks"
    and "0 \<le> the_limit lim (playlist_count p)"
    and "\<And>lib n. ml = Some lib \<Longrightarrow> unbroken (recentlyAdded lib n)"
    and "\<And>lib srt n. ml = Some lib \<Longrightarrow> unbroken (search lib srt n)"
    and "\<And>lib. ml = Some lib \<Longrightarrow> unbroken (all_tracks lib)"
  shows "int (length tracks) \<le> the_limit lim (playlist_count p)"
proof -
  have "length tracks \<le> nat (the_limit lim (playlist_count p))"
  proof (cases ml)
    case None
    with assms(1) show ?thesis
      by (auto simp: fetch_tracks_def Let_def dest: playlist_method_adds)
  next
    case (Some lib)
    with assms show ?thesis
      by (auto simp: fetch_tracks_def Let_def split: if_splits
          dest: playlist_method_adds recent_method_complete library_method_complete)
  qed
  with assms(2) show ?thesis by simp
qed

lemma recent_hundred_count: "playlist_count recent_hundred = None"
  by (simp add: playlist_count_def recent_hundred_def)

lemma recent_hundred_limit: "the_limit None (playlist_count recent_hundred) = 100"
  by (simp add: recent_hundred_count the_limit_def is_large_playlist_def
      REGULAR_PLAYLIST_LIMIT_def)

text \<open>
  Claim C1: the track list produced by a fetch has at most as many tracks as the cap,
  whatever the remote sources yield. The code breaks it. The list \<^verbatim>\<open>tracks\<close> is
  reset at line 293 only, and the handlers of lines 316-327 and 354-365 append to it. Here
  the recently-added accessor returns a sequence that raises after 80 tracks; the handler
  appends the 100 items of the playlist, and the fetch succeeds with 180 tracks under the
  cap 100.
\<close>

theorem fallback_appends_to_partial_list:
  "select_strategy (pl_title recent_hundred) (playlist_count recent_hundred) True = RECENT_FEED \<and>
   the_limit None (playlist_count recent_hundred) = 100 \<and>
   recentlyAdded lib_breaking 100 = Returns (Seq (replicate 80 band_track) (Some OtherError)) \<and>
   items recent_hundred = Returns (Seq (replicate 100 raw_track) None) \<and>
   fetch_tracks (Some lib_breaking) recent_hundred None =
     ([RecentlyAdded 100, PlaylistItems (Some ''P8'')],
      Inr (replicate 80 band_track @ replicate 100 raw_track)) \<and>
   length (replicate 80 band_track @ replicate 100 raw_track) = 180"
proof -
  have t: "recent_title (pl_title recent_hundred)"
    by (simp add: recent_title_def recent_hundred_def)
  have s: "select_strategy (pl_title recent_hundred) (playlist_count recent_hundred) True
      = RECENT_FEED"
    by (simp add: select_strategy_def t)
  have r: "recentlyAdded lib_breaking 100 = Returns (Seq (replicate 80 band_track) (Some OtherError))"
    by (simp add: lib_breaking_def)
  have i: "items recent_hundred = Returns (Seq (replicate 100 raw_track) None)"
    "pl_ratingKey recent_hundred = Some ''P8''"
    by (simp_all add: recent_hundred_def)
  have a: "api_limit 100 = 100" by (simp add: api_limit_def MAX_API_RESULTS_def)
  have f: "fetch_tracks (Some lib_breaking) recent_hundred None =
     ([RecentlyAdded 100, PlaylistItems (Some ''P8'')],
      Inr (replicate 80 band_track @ replicate 100 raw_track))"
    by (simp add: fetch_tracks_def Let_def t recent_hundred_limit recent_method_def a r
        library_loop_def loop_into_eq after_calls_def playlist_method_def i)
  from s recent_hundred_limit r i(1) f show ?thesis by simp
qed

lemma big_mix_count: "playlist_count big_mix = Some 5000"
  by (simp add: playlist_count_def big_mix_def)

lemma big_mix_limit: "the_limit None (Some 5000) = 50"
  by (simp add: the_limit_def is_large_playlist_def LARGE_PLAYLIST_THRESHOLD_def
      LARGE_PLAYLIST_LIMIT_def)

lemma big_mix_fetch:
  "fetch_tracks (Some lib200) big_mix None = ([Search None 50], Inr (replicate 50 band_track))"
proof -
  have t: "recent_title (pl_title big_mix) = False"
    by (simp add: recent_title_def big_mix_def)
  have l: "is_large_playlist (Some 5000)"
    by (simp add: is_large_playlist_def LARGE_PLAYLIST_THRESHOLD_def)
  have a: "api_limit 50 = 50" by (simp add: api_limit_def MAX_API_RESULTS_def)
  have s: "search lib200 None 50 = Returns (Seq (replicate 200 band_track) None)"
    by (simp add: lib200_def)
  show ?thesis
    by (simp add: fetch_tracks_def Let_def big_mix_count big_mix_limit t l library_method_def a s
        slice_to_def materialise_def)
qed

lemma starts_with_iff: "starts_with n s \<longleftrightarrow> (\<exists>post. s = n @ post)"
  by (induction n s rule: starts_with.induct) auto

lemma contains_iff: "contains n s \<longleftrightarrow> (\<exists>pre post. s = pre @ n @ post)"
proof (induction s)
  case Nil
  then show ?case by simp
next
  case (Cons c cs)
  show ?case
  proof
    assume "contains n (c # cs)"
    then consider "starts_with n (c # cs)" | "contains n cs" by auto
    then show "\<exists>pre post. c # cs = pre @ n @ post"
    proof cases
      case 1
      then obtain post where "c # cs = n @ post" by (auto simp: starts_with_iff)
      then have "c # cs = [] @ n @ post" by simp
      then show ?thesis by blast
    next
      case 2
      with Cons obtain pre post where "cs = pre @ n @ post" by auto
      then have "c # cs = (c # pre) @ n @ post" by simp
      then show ?thesis by blast
    qed
  next
    assume "\<exists>pre post. c # cs = pre @ n @ post"
    then obtain pre post where e: "c # cs = pre @ n @ post" by blast
    show "contains n (c # cs)"
    proof (cases pre)
      case Nil
      with e have "starts_with n (c # cs)" by (auto simp: starts_with_iff)
      then show ?thesis by simp
    next
      case (Cons d pre')
      with e have "cs = pre' @ n @ post" by simp
      with Cons.IH have "contains n cs" by blast
      then show ?thesis by simp
    qed
  qed
qed

lemma recent_title_iff:
  "recent_title t \<longleftrightarrow> (\<exists>s pre post. t = Some s \<and> s = pre @ ''Recently Added'' @ post)"
  by (cases t) (auto simp: recent_title_def contains_iff)

lemma is_large_iff: "is_large_playlist c \<longleftrightarrow> (\<exists>n. c = Some n \<and> n > 1000)"
  by (cases c) (auto simp: is_large_playlist_def LARGE_PLAYLIST_THRESHOLD_def)

lemma select_eq_spec: "select_strategy t c l = spec_strategy t c l"
  unfolding select_strategy_def spec_strategy_def recent_title_iff is_large_iff by simp

lemma fetch_by_strategy:
  "fetch_tracks ml p lim =
     run_strategy (select_strategy (pl_title p) (playlist_count p) (ml \<noteq> None)) ml p
       (the_limit lim (playlist_count p))"
  by (cases ml) (simp_all add: fetch_tracks_def run_strategy_def select_strategy_def Let_def)

lemma recent_first:
  "select_strategy (Some (pre @ ''Recently Added'' @ post)) declared True = RECENT_FEED"
proof -
  have "recent_title (Some (pre @ ''Recently Added'' @ post))"
    unfolding recent_title_iff by blast
  then show ?thesis by (simp add: select_strategy_def)
qed

text \<open>
  Claim C2. The branch taken by the loader is a function of the title, the declared count
  and the presence of the library handle, and it is the selection the specification words:
  the title rule first, then the count rule, else the playlist's own items. A title that
  contains "Recently Added" selects the recent feed whatever the count.
\<close>

theorem strategy_selection:
  "select_strategy title declared has_library = spec_strategy title declared has_library \<and>
   fetch_tracks ml p lim =
     run_strategy (select_strategy (pl_title p) (playlist_count p) (ml \<noteq> None)) ml p
       (the_limit lim (playlist_count p)) \<and>
   select_strategy (Some (pre @ ''Recently Added'' @ post)) declared True = RECENT_FEED"
  using select_eq_spec [of title declared has_library] fetch_by_strategy [of ml p lim]
    recent_first [of pre post declared]
  by blast


section \<open>The artist resolver\<close>

lemma or_unknown_nonempty: "or_unknown a \<noteq> []"
  by (cases a) (simp_all add: or_unknown_def)

lemma first_text_xml:
  "first_text d ns = Some txt \<Longrightarrow> xml_artist d ns cur = Some (strip txt) \<and> txt \<noteq> [] \<and> d \<noteq> []"
proof (induction ns)
  case Nil
  then show ?case by simp
next
  case (Cons n ns)
  then show ?case
    by (cases d) (auto split: option.splits list.splits)
qed

lemma from_attr_keep: "\<not> falsy cur \<Longrightarrow> method3 t cur = cur \<and> method4 t cur = cur"
  by (simp add: method3_def method4_def)

lemma tier2_keep: "\<not> falsy cur \<Longrightarrow> tier2 t cur = cur"
  by (simp add: tier2_def test_data_def)

lemma tier5_keep: "\<not> falsy cur \<Longrightarrow> tier5 px t cur = (cur, [])"
  by (simp add: tier5_def test_key_def)

lemma method6_keep: "\<not> falsy cur \<Longrightarrow> method6 t cur = (cur, [])"
  by (simp add: method6_def)

lemma local_methods_falsy: "falsy (local_methods t) \<Longrightarrow> falsy (method1 t None)"
proof (rule ccontr)
  assume f: "falsy (local_methods t)" and n: "\<not> falsy (method1 t None)"
  from n have "local_methods t = method1 t None"
    by (simp add: local_methods_def tier2_keep from_attr_keep)
  with f n show False by simp
qed

text \<open>The method leaves with an exception exactly at one of the two tests outside the
  \<^verbatim>\<open>try\<close> blocks; otherwise it returns what the chain of the six methods found.\<close>

lemma resolve_eq:
  "resolve px t = (if raises_outside_try t then Inl OtherError else Inr (chain px t))"
proof (cases "falsy (method1 t None) \<and> data t = Raising")
  case True
  then show ?thesis by (simp add: resolve_def raises_outside_try_def test_data_def Let_def)
next
  case False
  then have "\<exists>b. test_data t (method1 t None) = Inr b"
    by (cases "data t") (auto simp: test_data_def split: option.splits)
  then obtain b2 where b2: "test_data t (method1 t None) = Inr b2" ..
  then have a2: "(if b2 then method2 t (method1 t None) else method1 t None)
      = tier2 t (method1 t None)"
    by (cases b2) (simp_all add: tier2_def)
  have lm: "method4 t (method3 t (tier2 t (method1 t None))) = local_methods t"
    by (simp add: local_methods_def)
  show ?thesis
  proof (cases "falsy (local_methods t) \<and> ratingKey t = Raising")
    case True
    then have "test_key t (local_methods t) = Inl OtherError" by (simp add: test_key_def)
    with True show ?thesis
      by (simp add: resolve_def raises_outside_try_def Let_def b2 a2 lm)
  next
    case no: False
    then have "\<exists>b. test_key t (local_methods t) = Inr b"
      by (cases "ratingKey t") (auto simp: test_key_def)
    then obtain b5 where b5: "test_key t (local_methods t) = Inr b5" ..
    from False no have nr: "\<not> raises_outside_try t" by (simp add: raises_outside_try_def)
    show ?thesis
    proof (cases b5)
      case True
      with b5 have "tier5 px t (local_methods t) = method5 px t (local_methods t)"
        by (simp add: tier5_def)
      with True nr show ?thesis
        by (simp add: resolve_def chain_def Let_def b2 a2 lm b5 split: prod.splits)
    next
      case False
      with b5 have "tier5 px t (local_methods t) = (local_methods t, [])"
        by (simp add: tier5_def)
      with False nr show ?thesis
        by (simp add: resolve_def chain_def Let_def b2 a2 lm b5 split: prod.splits)
    qed
  qed
qed

lemma get_artist_name_eq:
  "get_artist_name px t =
     (if raises_outside_try t then (Inl OtherError, [])
      else (Inr (or_unknown (fst (chain px t))), snd (chain px t)))"
  by (simp add: get_artist_name_def resolve_eq split: prod.splits)

lemma plain_reads: "data t \<noteq> Raising \<Longrightarrow> ratingKey t \<noteq> Raising \<Longrightarrow> \<not> raises_outside_try t"
  by (simp add: raises_outside_try_def)

lemma raises_iff: "(\<exists>e. fst (get_artist_name px t) = Inl e) \<longleftrightarrow> raises_outside_try t"
  by (simp add: get_artist_name_eq)

lemma chain_local: "\<not> falsy (local_methods t) \<Longrightarrow> chain px t = (local_methods t, [])"
  by (simp add: chain_def tier5_keep method6_keep)

lemma tier5_calls: "falsy cur \<Longrightarrow> snd (tier5 px t cur) = [] \<Longrightarrow> fst (tier5 px t cur) = cur"
  by (auto simp: tier5_def test_key_def method5_def split: attr.splits option.splits reply.splits)

lemma method6_calls: "falsy cur \<Longrightarrow> snd (method6 t cur) \<noteq> []"
  by (auto simp: method6_def split: option.splits reply.splits)

lemma chain_calls_empty_iff: "snd (chain px t) = [] \<longleftrightarrow> \<not> falsy (local_methods t)"
proof
  assume e: "snd (chain px t) = []"
  show "\<not> falsy (local_methods t)"
  proof
    assume f: "falsy (local_methods t)"
    obtain a5 c5 where m5: "tier5 px t (local_methods t) = (a5, c5)"
      by (cases "tier5 px t (local_methods t)")
    obtain a6 c6 where m6: "method6 t a5 = (a6, c6)" by (cases "method6 t a5")
    from e m5 m6 have c: "c5 = []" "c6 = []" by (simp_all add: chain_def)
    with f m5 tier5_calls [of "local_methods t" px t] have "a5 = local_methods t" by simp
    with f method6_calls [of a5 t] m6 c show False by simp
  qed
next
  assume "\<not> falsy (local_methods t)"
  then show "snd (chain px t) = []" by (simp add: chain_local)
qed

lemma chain_fst:
  "fst (chain px t) = fst (method6 t (fst (tier5 px t (local_methods t))))"
  by (simp add: chain_def split: prod.splits)

lemma or_unknown_some: "\<not> falsy a \<Longrightarrow> a = Some (or_unknown a)"
  by (cases a) (simp_all add: or_unknown_def falsy_def)

lemma or_unknown_falsy: "falsy a \<Longrightarrow> or_unknown a = ''Unknown''"
  by (cases a) (simp_all add: or_unknown_def falsy_def)

lemma first_tier_wins:
  assumes "\<not> exhausted px t"
  shows "List.find (\<lambda>a. \<not> falsy a) (tiers px t) = Some (Some (or_unknown (fst (chain px t))))"
proof -
  define a1 where "a1 = method1 t None"
  define a2 where "a2 = tier2 t a1"
  define a3 where "a3 = method3 t a2"
  define a4 where "a4 = method4 t a3"
  define a5 where "a5 = fst (tier5 px t a4)"
  define a6 where "a6 = fst (method6 t a5)"
  have ts: "tiers px t = [a1, a2, a3, a4, a5, a6]"
    by (simp add: tiers_def Let_def a1_def a2_def a3_def a4_def a5_def a6_def)
  have r: "fst (chain px t) = a6"
    by (simp add: chain_fst local_methods_def a1_def a2_def a3_def a4_def a5_def a6_def)
  have k2: "\<not> falsy a1 \<Longrightarrow> a2 = a1" by (simp add: a2_def tier2_keep)
  have k3: "\<not> falsy a2 \<Longrightarrow> a3 = a2" by (simp add: a3_def from_attr_keep)
  have k4: "\<not> falsy a3 \<Longrightarrow> a4 = a3" by (simp add: a4_def from_attr_keep)
  have k5: "\<not> falsy a4 \<Longrightarrow> a5 = a4" by (simp add: a5_def tier5_keep)
  have k6: "\<not> falsy a5 \<Longrightarrow> a6 = a5" by (simp add: a6_def method6_keep)
  from assms ts have some: "\<not> falsy a1 \<or> \<not> falsy a2 \<or> \<not> falsy a3 \<or> \<not> falsy a4 \<or>
      \<not> falsy a5 \<or> \<not> falsy a6"
    by (simp add: exhausted_def)
  have "List.find (\<lambda>a. \<not> falsy a) [a1, a2, a3, a4, a5, a6] = Some a6 \<and> \<not> falsy a6"
    using some k2 k3 k4 k5 k6 by (cases "falsy a1"; cases "falsy a2"; cases "falsy a3";
        cases "falsy a4"; cases "falsy a5"; simp)
  with ts r or_unknown_some [of a6] show ?thesis by simp
qed

lemma exhausted_unknown:
  assumes "exhausted px t"
  shows "or_unknown (fst (chain px t)) = ''Unknown''"
proof -
  from assms have "falsy (fst (method6 t (fst (tier5 px t (local_methods t)))))"
    by (simp add: exhausted_def tiers_def Let_def local_methods_def)
  then show ?thesis by (simp add: chain_fst or_unknown_falsy)
qed

text \<open>
  Claim C4, amended. For every track whose reads of \<^verbatim>\<open>_data\<close> and
  \<^verbatim>\<open>ratingKey\<close> do not raise (the two reads outside the \<^verbatim>\<open>try\<close> blocks),
  \<open>get_artist_name\<close> returns and does not raise, and its result is never empty. When
  every one of the six methods leaves \<^verbatim>\<open>artist\<close> empty the result is "Unknown";
  otherwise the result is the value of the first method that found one. That value can
  itself be the text "Unknown", so the result "Unknown" does not tell that every method
  failed.
\<close>

theorem artist_total:
  assumes "data t \<noteq> Raising" and "ratingKey t \<noteq> Raising"
  shows "\<exists>name. fst (get_artist_name px t) = Inr name \<and> name \<noteq> [] \<and>
           (exhausted px t \<longrightarrow> name = ''Unknown'') \<and>
           (\<not> exhausted px t \<longrightarrow>
              List.find (\<lambda>a. \<not> falsy a) (tiers px t) = Some (Some name))"
proof -
  let ?name = "or_unknown (fst (chain px t))"
  from plain_reads [OF assms] have r: "fst (get_artist_name px t) = Inr ?name"
    by (simp add: get_artist_name_eq)
  have n: "?name \<noteq> []" by (rule or_unknown_nonempty)
  have e: "exhausted px t \<longrightarrow> ?name = ''Unknown''" using exhausted_unknown by blast
  have f: "\<not> exhausted px t \<longrightarrow>
      List.find (\<lambda>a. \<not> falsy a) (tiers px t) = Some (Some ?name)"
    using first_tier_wins by blast
  from r n e f show ?thesis by blast
qed

lemma bare_tiers: "tiers (Some server_down) bare_track = [None, None, None, None, None, None]"
  by (simp add: tiers_def Let_def method1_def tier2_def test_data_def method3_def method4_def
      tier5_def test_key_def method5_def method6_def from_attr_def falsy_def bare_track_def
      server_down_def)

lemma band_tiers:
  "tiers None band_track = [Some ''Band X'', Some ''Band X'', Some ''Band X'', Some ''Band X'',
     Some ''Band X'', Some ''Band X'']"
  by (simp add: tiers_def Let_def method1_def tier2_def test_data_def method3_def method4_def
      tier5_def test_key_def method6_def from_attr_def falsy_def band_track_def strip_def
      is_space_def)

theorem artist_total_witness:
  "data bare_track \<noteq> Raising \<and> ratingKey bare_track \<noteq> Raising \<and>
   exhausted (Some server_down) bare_track \<and>
   fst (get_artist_name (Some server_down) bare_track) = Inr ''Unknown'' \<and>
   data band_track \<noteq> Raising \<and> ratingKey band_track \<noteq> Raising \<and>
   \<not> exhausted None band_track \<and>
   List.find (\<lambda>a. \<not> falsy a) (tiers None band_track) = Some (Some ''Band X'') \<and>
   fst (get_artist_name None band_track) = Inr ''Band X''"
proof -
  have d1: "data bare_track \<noteq> Raising" and k1: "ratingKey bare_track \<noteq> Raising"
    by (simp_all add: bare_track_def)
  have d2: "data band_track \<noteq> Raising" and k2: "ratingKey band_track \<noteq> Raising"
    by (simp_all add: band_track_def)
  have e: "exhausted (Some server_down) bare_track"
    by (simp add: exhausted_def bare_tiers falsy_def)
  have n: "\<not> exhausted None band_track"
    by (simp add: exhausted_def band_tiers falsy_def)
  have f: "List.find (\<lambda>a. \<not> falsy a) (tiers None band_track) = Some (Some ''Band X'')"
    by (simp add: band_tiers falsy_def)
  from artist_total [OF d1 k1, of "Some server_down"] e
  have 1: "fst (get_artist_name (Some server_down) bare_track) = Inr ''Unknown''" by auto
  from artist_total [OF d2 k2, of None] n f
  have 2: "fst (get_artist_name None band_track) = Inr ''Band X''" by auto
  from d1 k1 d2 k2 e n f 1 2 show ?thesis by blast
qed

lemma unknown_tiers:
  "tiers None unknown_track = [Some ''Unknown'', Some ''Unknown'', Some ''Unknown'',
     Some ''Unknown'', Some ''Unknown'', Some ''Unknown'']"
  by (simp add: tiers_def Let_def method1_def tier2_def test_data_def method3_def method4_def
      tier5_def test_key_def method6_def from_attr_def falsy_def unknown_track_def strip_def
      is_space_def)

lemma unknown_chain: "chain None unknown_track = (Some ''Unknown'', [])"
proof -
  have m: "method1 unknown_track None = Some ''Unknown''"
    by (simp add: method1_def from_attr_def falsy_def unknown_track_def strip_def is_space_def)
  then have "local_methods unknown_track = Some ''Unknown''"
    by (simp add: local_methods_def tier2_keep from_attr_keep falsy_def)
  then show ?thesis using chain_local [of unknown_track None] by (simp add: falsy_def)
qed

text \<open>
  The claim as stated fails for a track whose artist field holds the text "Unknown": the
  result is "Unknown" although the first method found a value and no method was exhausted.
\<close>

theorem unknown_not_only_when_exhausted:
  "fst (get_artist_name None unknown_track) = Inr ''Unknown'' \<and>
   \<not> exhausted None unknown_track \<and>
   method1 unknown_track None = Some ''Unknown''"
proof -
  have t: "\<not> exhausted None unknown_track" by (simp add: exhausted_def unknown_tiers falsy_def)
  have m: "method1 unknown_track None = Some ''Unknown''"
    by (simp add: method1_def from_attr_def falsy_def unknown_track_def strip_def is_space_def)
  have u: "\<not> raises_outside_try unknown_track"
    by (rule plain_reads) (simp_all add: unknown_track_def)
  then have r: "fst (get_artist_name None unknown_track) = Inr ''Unknown''"
    by (simp add: get_artist_name_eq unknown_chain or_unknown_def)
  from t m r show ?thesis by blast
qed

text \<open>
  Outside the amended claim: a track whose \<^verbatim>\<open>_data\<close> cannot be read makes the method
  raise at line 418, before the third method, which would have found its artist.
\<close>

lemma unguarded_read_raises:
  "data veiled_track = Raising \<and>
   method3 veiled_track None = Some ''Band X'' \<and>
   get_artist_name px veiled_track = (Inl OtherError, [])"
proof -
  have d: "data veiled_track = Raising" by (simp add: veiled_track_def)
  have m: "method3 veiled_track None = Some ''Band X''"
    by (simp add: method3_def from_attr_def falsy_def veiled_track_def strip_def is_space_def)
  have "falsy (method1 veiled_track None)"
    by (simp add: method1_def from_attr_def falsy_def veiled_track_def)
  with d have "raises_outside_try veiled_track" by (simp add: raises_outside_try_def)
  then have v: "get_artist_name px veiled_track = (Inl OtherError, [])"
    by (simp add: get_artist_name_eq)
  from d m v show ?thesis by blast
qed

text \<open>
  Claim C7, amended. When the first method finds nothing and the first candidate element of
  the raw document with a non-empty text holds more than blanks, the result is that text
  stripped, and neither the reload nor the artist lookup is called.
\<close>

theorem raw_document_artist:
  assumes "falsy (method1 t None)"
    and "data t = Has (Some d)"
    and "first_text d candidates = Some txt"
    and "strip txt \<noteq> []"
  shows "get_artist_name px t = (Inr (strip txt), [])"
proof -
  from assms(3) have x: "xml_artist d candidates (method1 t None) = Some (strip txt)" "d \<noteq> []"
    using first_text_xml by blast+
  with assms(1,2) have m2: "tier2 t (method1 t None) = Some (strip txt)"
    by (simp add: tier2_def test_data_def method2_def)
  from assms(4) have nf: "\<not> falsy (Some (strip txt))" by (simp add: falsy_def)
  with m2 have l: "local_methods t = Some (strip txt)"
    by (simp add: local_methods_def from_attr_keep)
  with nf have c: "chain px t = (Some (strip txt), [])" using chain_local [of t px] by simp
  from assms(2) l nf have "\<not> raises_outside_try t" by (simp add: raises_outside_try_def)
  with c assms(4) show ?thesis by (simp add: get_artist_name_eq or_unknown_def)
qed

lemma strip_band: "strip '' Band X '' = ''Band X''"
  by (simp add: strip_def is_space_def)

theorem raw_document_artist_witness:
  "falsy (method1 raw_track None) \<and>
   data raw_track = Has (Some [(''originalTitle'', Some '' Band X '')]) \<and>
   first_text [(''originalTitle'', Some '' Band X '')] candidates = Some '' Band X '' \<and>
   strip '' Band X '' \<noteq> [] \<and>
   get_artist_name (Some server_down) raw_track = (Inr ''Band X'', [])"
proof -
  have 1: "falsy (method1 raw_track None)"
    by (simp add: method1_def from_attr_def falsy_def raw_track_def)
  have 2: "data raw_track = Has (Some [(''originalTitle'', Some '' Band X '')])"
    by (simp add: raw_track_def)
  have 3: "first_text [(''originalTitle'', Some '' Band X '')] candidates = Some '' Band X ''"
    by (simp add: candidates_def)
  have 4: "strip '' Band X '' \<noteq> []" by (simp add: strip_band)
  from raw_document_artist [OF 1 2 3 4, of "Some server_down"] 1 2 3 4 strip_band
  show ?thesis by simp
qed

text \<open>
  The claim as stated fails when the first non-empty candidate holds only blanks: the
  loop stops at it with an empty artist, the later candidate "Band X" is never read, and
  the reload and the artist lookup are both called.
\<close>

theorem blank_candidate_blocks:
  "falsy (method1 blank_raw_track None) \<and>
   data blank_raw_track
     = Has (Some [(''grandparentTitle'', Some ''  ''), (''originalTitle'', Some ''Band X'')]) \<and>
   first_text [(''grandparentTitle'', Some ''  ''), (''originalTitle'', Some ''Band X'')] candidates
     = Some ''  '' \<and>
   get_artist_name (Some server_down) blank_raw_track
     = (Inr ''Unknown'', [FetchItem 7, ArtistLookup])"
  by (simp add: get_artist_name_def or_unknown_def resolve_def test_data_def test_key_def
      method1_def method2_def method3_def method4_def method5_def method6_def from_attr_def
      falsy_def blank_raw_track_def strip_def is_space_def candidates_def server_down_def)


section \<open>Caps and fallbacks\<close>

lemma default_limit: "the_limit None declared = (if is_large_playlist declared then 50 else 100)"
  by (simp add: the_limit_def LARGE_PLAYLIST_LIMIT_def REGULAR_PLAYLIST_LIMIT_def)

lemma api_limit_min: "api_limit limit = min limit 1000"
  by (simp add: api_limit_def MAX_API_RESULTS_def)

lemma large_scan_cap:
  "select_strategy title declared has_library = LARGE_LIBRARY_SCAN \<Longrightarrow> the_limit None declared = 50"
  by (simp add: select_strategy_def default_limit split: if_splits)

lemma direct_cap:
  "select_strategy title declared has_library = DIRECT_ENUMERATION \<Longrightarrow> has_library
     \<Longrightarrow> the_limit None declared = 100"
  by (simp add: select_strategy_def default_limit split: if_splits)

lemma limits_sent_append: "limits_sent (cs @ ds) = limits_sent cs @ limits_sent ds"
  by (simp add: limits_sent_def)

lemma limits_sent_simps:
  "limits_sent [] = []" "limits_sent (c # cs) = limit_sent c @ limits_sent cs"
  by (simp_all add: limits_sent_def)

lemma playlist_method_sent: "limits_sent (fst (playlist_method p limit acc)) = []"
  by (simp add: playlist_method_def limits_sent_def)

lemma library_loop_sent:
  "limits_sent (fst (library_loop cs sq p limit)) = limits_sent cs"
  by (cases "loop_into limit sq []")
     (simp add: library_loop_def after_calls_def limits_sent_append playlist_method_sent
      split: option.splits)

lemma recent_method_sent:
  "set (limits_sent (fst (recent_method lib p limit))) \<subseteq> {api_limit limit}"
  by (simp add: recent_method_def after_calls_def library_loop_sent limits_sent_append
      playlist_method_sent limits_sent_simps split: reply.splits exn.splits)

lemma all_method_sent:
  "set (limits_sent (fst (all_method lib p limit))) \<subseteq> {api_limit limit}"
  by (simp add: all_method_def after_calls_def library_loop_sent limits_sent_append
      playlist_method_sent limits_sent_simps split: reply.splits)

lemma library_method_sent:
  "set (limits_sent (fst (library_method lib p limit))) \<subseteq> {api_limit limit}"
  using all_method_sent [of lib p limit]
  by (simp add: library_method_def limits_sent_simps split: reply.splits sum.splits)

lemma fetch_sent:
  "set (limits_sent (fst (fetch_tracks ml p lim))) \<subseteq> {api_limit (the_limit lim (playlist_count p))}"
  using recent_method_sent library_method_sent
  by (auto simp: fetch_tracks_def Let_def playlist_method_sent split: option.splits)

text \<open>
  Claim C5, amended. The cap follows the declared count, not the strategy: 50 when the
  count is known and above 1000, else 100. So the large-library scan always has cap 50
  and direct enumeration with a library handle has cap 100. Every \<^verbatim>\<open>maxresults\<close>
  sent to the library is the cap clamped to 1000.
\<close>

theorem cap_by_declared_count:
  "the_limit None declared = (if is_large_playlist declared then 50 else 100) \<and>
   api_limit limit = min limit 1000 \<and>
   (select_strategy title declared has_library = LARGE_LIBRARY_SCAN
      \<longrightarrow> the_limit None declared = 50) \<and>
   (select_strategy title declared has_library = DIRECT_ENUMERATION \<and> has_library
      \<longrightarrow> the_limit None declared = 100) \<and>
   set (limits_sent (fst (fetch_tracks ml p lim)))
     \<subseteq> {api_limit (the_limit lim (playlist_count p))}"
  using default_limit [of declared] api_limit_min [of limit]
    large_scan_cap [of title declared has_library] direct_cap [of title declared has_library]
    fetch_sent [of ml p lim]
  by blast

lemma recent_list_count: "playlist_count recent_list = None"
  by (simp add: playlist_count_def recent_list_def)

lemma recent_list_title: "recent_title (pl_title recent_list)"
  by (simp add: recent_title_def recent_list_def)

lemma big_mix_title: "\<not> recent_title (pl_title big_mix)"
  by (simp add: recent_title_def big_mix_def)

lemma large_5000: "is_large_playlist (Some 5000)"
  by (simp add: is_large_playlist_def LARGE_PLAYLIST_THRESHOLD_def)

lemma small_none: "\<not> is_large_playlist None"
  by (simp add: is_large_playlist_def)

lemma collect_replicate:
  "loop_into limit (Seq (replicate n x) None) [] = (replicate (min (nat limit) n) x, None)"
  by (simp add: loop_into_eq)

lemma recent_list_fetch:
  "fetch_tracks (Some lib200) recent_list None = ([RecentlyAdded 100], Inr (replicate 100 band_track))"
proof -
  have r: "recentlyAdded lib200 100 = Returns (Seq (replicate 200 band_track) None)"
    by (simp add: lib200_def)
  show ?thesis
    by (simp add: fetch_tracks_def Let_def recent_list_count recent_list_title default_limit
        small_none recent_method_def api_limit_min r library_loop_def collect_replicate)
qed

lemma big_mix_direct:
  "fetch_tracks None big_mix None = ([PlaylistItems (Some ''P1'')], Inr (replicate 50 band_track))"
proof -
  have i: "items big_mix = Returns (Seq (replicate 300 band_track) None)"
    "pl_ratingKey big_mix = Some ''P1''"
    by (simp_all add: big_mix_def)
  show ?thesis
    by (simp add: fetch_tracks_def Let_def big_mix_count default_limit large_5000
        playlist_method_def i collect_replicate)
qed

theorem cap_by_declared_count_witness:
  "select_strategy (Some ''Big Mix'') (Some 5000) True = LARGE_LIBRARY_SCAN \<and>
   the_limit None (Some 5000) = 50 \<and>
   select_strategy (Some ''Big Mix'') (Some 40) True = DIRECT_ENUMERATION \<and>
   the_limit None (Some 40) = 100 \<and>
   limits_sent (fst (fetch_tracks (Some lib200) big_mix None)) = [50]"
proof -
  have a: "select_strategy (Some ''Big Mix'') (Some 5000) True = LARGE_LIBRARY_SCAN"
    by (simp add: select_strategy_def recent_title_def large_5000)
  have b: "select_strategy (Some ''Big Mix'') (Some 40) True = DIRECT_ENUMERATION"
    by (simp add: select_strategy_def recent_title_def is_large_playlist_def
        LARGE_PLAYLIST_THRESHOLD_def)
  have c: "limits_sent (fst (fetch_tracks (Some lib200) big_mix None)) = [50]"
    by (simp add: big_mix_fetch limits_sent_def)
  from cap_by_declared_count [of "Some 5000" 0 "Some ''Big Mix''" True None big_mix None] a
  have 1: "the_limit None (Some 5000) = 50" by blast
  from cap_by_declared_count [of "Some 40" 0 "Some ''Big Mix''" True None big_mix None] b
  have 2: "the_limit None (Some 40) = 100" by blast
  from a b c 1 2 show ?thesis by blast
qed

text \<open>
  The claim as stated fails twice: the playlist "Recently Added" without a declared count
  takes the recent feed with cap 100, and a playlist declared at 5000 tracks, loaded
  without a library handle, is enumerated directly with cap 50.
\<close>

theorem cap_follows_count_not_strategy:
  "select_strategy (pl_title recent_list) (playlist_count recent_list) True = RECENT_FEED \<and>
   the_limit None (playlist_count recent_list) = 100 \<and>
   fetch_tracks (Some lib200) recent_list None
     = ([RecentlyAdded 100], Inr (replicate 100 band_track)) \<and>
   select_strategy (pl_title big_mix) (playlist_count big_mix) False = DIRECT_ENUMERATION \<and>
   the_limit None (playlist_count big_mix) = 50 \<and>
   fetch_tracks None big_mix None
     = ([PlaylistItems (Some ''P1'')], Inr (replicate 50 band_track))"
  by (simp add: select_strategy_def recent_list_title recent_list_count big_mix_count
      default_limit small_none large_5000 recent_list_fetch big_mix_direct)

lemma recent_branch:
  "recent_title (pl_title p) \<Longrightarrow>
   fetch_tracks (Some lib) p lim = recent_method lib p (the_limit lim (playlist_count p))"
  by (simp add: fetch_tracks_def Let_def)

text \<open>
  Claim C6, amended. In the recent feed, when the accessor raises
  \<^verbatim>\<open>AttributeError\<close> the sorted search runs with the same limit, and the loop
  runs over what it returns: a complete sequence gives its first tracks up to the cap.
  When that search raises, or when the accessor raises any other exception, the
  playlist's own items are enumerated.
\<close>

theorem recent_feed_fallbacks:
  assumes "recent_title (pl_title p)" and "L = the_limit lim (playlist_count p)"
  shows
   "(recentlyAdded lib (api_limit L) = Raises AttributeError \<and>
     search lib (Some ''addedAt:desc'') (api_limit L) = Returns sq \<longrightarrow>
       fetch_tracks (Some lib) p lim =
         library_loop [RecentlyAdded (api_limit L), Search (Some ''addedAt:desc'') (api_limit L)]
           sq p L) \<and>
    (recentlyAdded lib (api_limit L) = Raises AttributeError \<and>
     search lib (Some ''addedAt:desc'') (api_limit L) = Returns (Seq ys None) \<longrightarrow>
       fetch_tracks (Some lib) p lim =
         ([RecentlyAdded (api_limit L), Search (Some ''addedAt:desc'') (api_limit L)],
          Inr (take (nat L) ys))) \<and>
    (recentlyAdded lib (api_limit L) = Raises AttributeError \<and>
     search lib (Some ''addedAt:desc'') (api_limit L) = Raises e \<longrightarrow>
       fetch_tracks (Some lib) p lim =
         after_calls [RecentlyAdded (api_limit L), Search (Some ''addedAt:desc'') (api_limit L)]
           (playlist_method p L [])) \<and>
    (recentlyAdded lib (api_limit L) = Raises OtherError \<longrightarrow>
       fetch_tracks (Some lib) p lim =
         after_calls [RecentlyAdded (api_limit L)] (playlist_method p L []))"
  using assms by (simp add: recent_branch recent_method_def library_loop_def loop_into_eq)

lemma recent_list_items:
  "playlist_method recent_list 100 [] = ([PlaylistItems (Some ''P2'')], Inr [band_track])"
  by (simp add: playlist_method_def recent_list_def loop_into_eq)

lemma recent_list_limit: "the_limit None (playlist_count recent_list) = 100"
  by (simp add: recent_list_count default_limit small_none)

theorem recent_feed_fallbacks_witness:
  "recent_title (pl_title recent_list) \<and>
   recentlyAdded lib_unavailable (api_limit 100) = Raises AttributeError \<and>
   search lib_unavailable (Some ''addedAt:desc'') (api_limit 100) = Returns (Seq [raw_track, band_track] None) \<and>
   fetch_tracks (Some lib_unavailable) recent_list None =
     ([RecentlyAdded 100, Search (Some ''addedAt:desc'') 100], Inr [raw_track, band_track]) \<and>
   recentlyAdded lib_failing (api_limit 100) = Raises AttributeError \<and>
   search lib_failing (Some ''addedAt:desc'') (api_limit 100) = Raises OtherError \<and>
   fetch_tracks (Some lib_failing) recent_list None =
     ([RecentlyAdded 100, Search (Some ''addedAt:desc'') 100, PlaylistItems (Some ''P2'')],
      Inr [band_track])"
proof -
  have l: "100 = the_limit None (playlist_count recent_list)" by (simp add: recent_list_limit)
  have a: "recentlyAdded lib_unavailable (api_limit 100) = Raises AttributeError"
    "search lib_unavailable (Some ''addedAt:desc'') (api_limit 100) = Returns (Seq [raw_track, band_track] None)"
    by (simp_all add: lib_unavailable_def)
  have b: "recentlyAdded lib_failing (api_limit 100) = Raises AttributeError"
    "search lib_failing (Some ''addedAt:desc'') (api_limit 100) = Raises OtherError"
    by (simp_all add: lib_failing_def)
  from recent_feed_fallbacks [OF recent_list_title l, where lib = lib_unavailable
      and ys = "[raw_track, band_track]"] a
  have 1: "fetch_tracks (Some lib_unavailable) recent_list None =
     ([RecentlyAdded 100, Search (Some ''addedAt:desc'') 100], Inr [raw_track, band_track])"
    by (simp add: api_limit_min)
  from recent_feed_fallbacks [OF recent_list_title l, where lib = lib_failing
      and e = OtherError] b
  have 2: "fetch_tracks (Some lib_failing) recent_list None =
     ([RecentlyAdded 100, Search (Some ''addedAt:desc'') 100, PlaylistItems (Some ''P2'')],
      Inr [band_track])"
    by (simp add: api_limit_min after_calls_def recent_list_items)
  from recent_list_title a b 1 2 show ?thesis by blast
qed

text \<open>
  The claim as stated fails when the accessor raises another exception than
  \<^verbatim>\<open>AttributeError\<close>: the sorted search, which would have answered, is not called.
\<close>

theorem other_failure_skips_sorted_search:
  "select_strategy (pl_title recent_list) (playlist_count recent_list) True = RECENT_FEED \<and>
   recentlyAdded lib_down 100 = Raises OtherError \<and>
   search lib_down (Some ''addedAt:desc'') 100 = Returns (Seq [raw_track, band_track] None) \<and>
   fetch_tracks (Some lib_down) recent_list None =
     ([RecentlyAdded 100, PlaylistItems (Some ''P2'')], Inr [band_track])"
proof -
  have r: "recentlyAdded lib_down 100 = Raises OtherError"
    "search lib_down (Some ''addedAt:desc'') 100 = Returns (Seq [raw_track, band_track] None)"
    by (simp_all add: lib_down_def)
  have f: "fetch_tracks (Some lib_down) recent_list None =
     ([RecentlyAdded 100, PlaylistItems (Some ''P2'')], Inr [band_track])"
    by (simp add: recent_branch recent_list_title recent_list_limit recent_method_def
        api_limit_min r after_calls_def recent_list_items)
  have s: "select_strategy (pl_title recent_list) (playlist_count recent_list) True = RECENT_FEED"
    by (simp add: select_strategy_def recent_list_title)
  from r f s show ?thesis by blast
qed

section \<open>The track cache and repeated displays\<close>

lemma tier5_no_fetch: "filter is_fetch_call (snd (tier5 px t cur)) = []"
  by (simp add: tier5_def method5_def split: sum.splits bool.splits attr.splits option.splits
      reply.splits)

lemma method6_no_fetch: "filter is_fetch_call (snd (method6 t cur)) = []"
  by (simp add: method6_def split: option.splits reply.splits)

lemma artist_no_fetch: "filter is_fetch_call (snd (get_artist_name px t)) = []"
proof -
  obtain a5 c5 where m5: "tier5 px t (local_methods t) = (a5, c5)"
    by (cases "tier5 px t (local_methods t)")
  obtain a6 c6 where m6: "method6 t a5 = (a6, c6)" by (cases "method6 t a5")
  from m5 tier5_no_fetch [of px t "local_methods t"] have 5: "filter is_fetch_call c5 = []" by simp
  from m6 method6_no_fetch [of t a5] have 6: "filter is_fetch_call c6 = []" by simp
  from m5 m6 5 6 show ?thesis by (simp add: get_artist_name_eq chain_def)
qed

lemma display_no_fetch: "filter is_fetch_call (display_calls px ts) = []"
  by (induction ts arbitrary: px) (simp_all add: display_calls_def filter_concat artist_no_fetch)

lemma load_hit:
  "cached (pl_ratingKey p) (tracks_cache s) = Some a \<Longrightarrow>
   load_playlist_tracks p lim s =
     update_playlist_display (store s a) (s\<lparr>current_playlist := a, current_index := 0\<rparr>)"
  by (simp add: load_playlist_tracks_def)

lemma load_fail:
  "cached (pl_ratingKey p) (tracks_cache s) = None \<Longrightarrow>
   fetch_tracks (music_library s) p lim = (cs, Inl e) \<Longrightarrow>
   load_playlist_tracks p lim s = s\<lparr>calls := calls s @ cs\<rparr>"
  by (simp add: load_playlist_tracks_def)

lemma load_miss:
  "cached (pl_ratingKey p) (tracks_cache s) = None \<Longrightarrow>
   fetch_tracks (music_library s) p lim = (cs, Inr tracks) \<Longrightarrow>
   load_playlist_tracks p lim s =
     update_playlist_display tracks
       (s\<lparr>calls := calls s @ cs,
          store := (store s)(next_addr s := tracks),
          next_addr := Suc (next_addr s),
          tracks_cache := cache_put (pl_ratingKey p) (next_addr s) (tracks_cache s),
          current_playlist := next_addr s,
          current_index := 0\<rparr>)"
  by (simp add: load_playlist_tracks_def)

lemma hit_effects:
  assumes "cached (pl_ratingKey p) (tracks_cache s) = Some a"
  shows "current_playlist (load_playlist_tracks p lim s) = a"
    and "store (load_playlist_tracks p lim s) = store s"
    and "tracks_cache (load_playlist_tracks p lim s) = tracks_cache s"
    and "next_addr (load_playlist_tracks p lim s) = next_addr s"
    and "current_index (load_playlist_tracks p lim s) = 0"
    and "fetch_calls (load_playlist_tracks p lim s) = fetch_calls s"
  using assms
  by (simp_all add: load_hit update_playlist_display_def fetch_calls_def display_no_fetch)

lemma miss_effects:
  assumes "cached (pl_ratingKey p) (tracks_cache s) = None"
    and "fetch_tracks (music_library s) p lim = (cs, Inr tracks)"
  shows "current_playlist (load_playlist_tracks p lim s) = next_addr s"
    and "store (load_playlist_tracks p lim s) = (store s)(next_addr s := tracks)"
    and "tracks_cache (load_playlist_tracks p lim s)
           = cache_put (pl_ratingKey p) (next_addr s) (tracks_cache s)"
    and "current_index (load_playlist_tracks p lim s) = 0"
  using assms
  by (simp_all add: load_miss update_playlist_display_def)

lemma fail_effects:
  assumes "cached (pl_ratingKey p) (tracks_cache s) = None"
    and "fetch_tracks (music_library s) p lim = (cs, Inl e)"
  shows "current_playlist (load_playlist_tracks p lim s) = current_playlist s"
    and "store (load_playlist_tracks p lim s) = store s"
    and "tracks_cache (load_playlist_tracks p lim s) = tracks_cache s"
    and "current_index (load_playlist_tracks p lim s) = current_index s"
  using assms
  by (simp_all add: load_fail)

lemma cached_after_load:
  assumes "pl_ratingKey p = Some k" and "k \<noteq> []"
    and "cached (Some k) (tracks_cache s) \<noteq> None \<or>
         (\<exists>cs tracks. fetch_tracks (music_library s) p lim = (cs, Inr tracks))"
  shows "cached (Some k) (tracks_cache (load_playlist_tracks p lim s))
           = Some (current_playlist (load_playlist_tracks p lim s))"
proof (cases "cached (Some k) (tracks_cache s)")
  case (Some a)
  with assms(1) have h: "cached (pl_ratingKey p) (tracks_cache s) = Some a" by simp
  from hit_effects(1,3) [OF h, of lim] Some show ?thesis by simp
next
  case None
  with assms(3) obtain cs tracks where
    f: "fetch_tracks (music_library s) p lim = (cs, Inr tracks)" by blast
  from None assms(1) have m: "cached (pl_ratingKey p) (tracks_cache s) = None" by simp
  from miss_effects(1,3) [OF m f] assms(1,2) show ?thesis
    by (simp add: cached_def cache_put_def)
qed

lemma second_load_is_hit:
  assumes "pl_ratingKey p' = Some k"
    and "cached (Some k) (tracks_cache s1) = Some (current_playlist s1)"
    and "s2 = load_playlist_tracks p' lim' (s1\<lparr>plex := px, music_library := ml\<rparr>)"
  shows "current_playlist s2 = current_playlist s1 \<and> store s2 = store s1 \<and>
         playlist_now s2 = playlist_now s1 \<and> tracks_cache s2 = tracks_cache s1 \<and>
         next_addr s2 = next_addr s1 \<and> fetch_calls s2 = fetch_calls s1"
proof -
  let ?s = "s1\<lparr>plex := px, music_library := ml\<rparr>"
  from assms(1,2) have h: "cached (pl_ratingKey p') (tracks_cache ?s) = Some (current_playlist s1)"
    by simp
  from hit_effects [OF h, of lim'] assms(3) show ?thesis
    by (simp add: playlist_now_def fetch_calls_def)
qed

text \<open>
  Claim C3. A load that finds the playlist key in the cache, or whose fetch succeeds,
  leaves the key cached at the address of the current list; the next load of a playlist
  with the same key, whatever the server handles answer by then, installs the same address
  with the same contents and adds no fetch call. A hit changes neither cache nor store;
  a successful fetch stores its list at a fresh address under the key; a failed fetch
  stores nothing.
\<close>

theorem cache_idempotent:
  assumes "pl_ratingKey p = Some k" and "k \<noteq> []" and "pl_ratingKey p' = Some k"
    and "s1 = load_playlist_tracks p lim s"
    and "s2 = load_playlist_tracks p' lim' (s1\<lparr>plex := px, music_library := ml\<rparr>)"
  shows
   "(cached (Some k) (tracks_cache s) \<noteq> None \<or>
     (\<exists>cs tracks. fetch_tracks (music_library s) p lim = (cs, Inr tracks)) \<longrightarrow>
       tracks_cache s1 k = Some (current_playlist s1) \<and>
       current_playlist s2 = current_playlist s1 \<and> store s2 = store s1 \<and>
       playlist_now s2 = playlist_now s1 \<and> tracks_cache s2 = tracks_cache s1 \<and>
       next_addr s2 = next_addr s1 \<and> fetch_calls s2 = fetch_calls s1) \<and>
    (cached (Some k) (tracks_cache s) = Some a \<longrightarrow>
       current_playlist s1 = a \<and> store s1 = store s \<and> tracks_cache s1 = tracks_cache s \<and>
       fetch_calls s1 = fetch_calls s) \<and>
    (cached (Some k) (tracks_cache s) = None \<and>
     fetch_tracks (music_library s) p lim = (cs, Inr tracks) \<longrightarrow>
       tracks_cache s1 = (tracks_cache s)(k \<mapsto> next_addr s) \<and>
       store s1 = (store s)(next_addr s := tracks) \<and> current_playlist s1 = next_addr s) \<and>
    (cached (Some k) (tracks_cache s) = None \<and>
     fetch_tracks (music_library s) p lim = (cs, Inl e) \<longrightarrow>
       tracks_cache s1 = tracks_cache s \<and> store s1 = store s \<and>
       current_playlist s1 = current_playlist s)"
proof (intro conjI impI)
  assume ok: "cached (Some k) (tracks_cache s) \<noteq> None \<or>
     (\<exists>cs tracks. fetch_tracks (music_library s) p lim = (cs, Inr tracks))"
  from cached_after_load [OF assms(1,2) ok] assms(4)
  have c: "cached (Some k) (tracks_cache s1) = Some (current_playlist s1)" by simp
  with assms(2) show "tracks_cache s1 k = Some (current_playlist s1)" by (simp add: cached_def)
  from second_load_is_hit [OF assms(3) c assms(5)]
  show "current_playlist s2 = current_playlist s1" "store s2 = store s1"
    "playlist_now s2 = playlist_now s1" "tracks_cache s2 = tracks_cache s1"
    "next_addr s2 = next_addr s1" "fetch_calls s2 = fetch_calls s1" by simp_all
next
  assume h: "cached (Some k) (tracks_cache s) = Some a"
  with assms(1) have h': "cached (pl_ratingKey p) (tracks_cache s) = Some a" by simp
  from hit_effects [OF h', of lim] assms(4)
  show "current_playlist s1 = a" "store s1 = store s" "tracks_cache s1 = tracks_cache s"
    "fetch_calls s1 = fetch_calls s" by simp_all
next
  assume m: "cached (Some k) (tracks_cache s) = None \<and>
     fetch_tracks (music_library s) p lim = (cs, Inr tracks)"
  with assms(1) have m': "cached (pl_ratingKey p) (tracks_cache s) = None" by simp
  from m have f: "fetch_tracks (music_library s) p lim = (cs, Inr tracks)" by simp
  from miss_effects [OF m' f] assms(1,2,4)
  show "tracks_cache s1 = (tracks_cache s)(k \<mapsto> next_addr s)"
    "store s1 = (store s)(next_addr s := tracks)" "current_playlist s1 = next_addr s"
    by (simp_all add: cache_put_def)
next
  assume m: "cached (Some k) (tracks_cache s) = None \<and>
     fetch_tracks (music_library s) p lim = (cs, Inl e)"
  with assms(1) have m': "cached (pl_ratingKey p) (tracks_cache s) = None" by simp
  from m have f: "fetch_tracks (music_library s) p lim = (cs, Inl e)" by simp
  from fail_effects [OF m' f] assms(4)
  show "tracks_cache s1 = tracks_cache s" "store s1 = store s"
    "current_playlist s1 = current_playlist s" by simp_all
qed

lemma fresh_fields:
  "tracks_cache fresh = Map.empty" "music_library fresh = Some lib200" "next_addr fresh = 1"
  "calls fresh = []" "current_playlist fresh = 0" "plex fresh = Some server_down"
  by (simp_all add: fresh_def startup_def)

lemma broken_fetch:
  "fetch_tracks (Some lib200) broken_list None = ([PlaylistItems (Some ''P4'')], Inl OtherError)"
proof -
  have c: "playlist_count broken_list = Some 1" by (simp add: playlist_count_def broken_list_def)
  have t: "\<not> recent_title (pl_title broken_list)" by (simp add: recent_title_def broken_list_def)
  have l: "\<not> is_large_playlist (Some 1)"
    by (simp add: is_large_playlist_def LARGE_PLAYLIST_THRESHOLD_def)
  have i: "items broken_list = Raises OtherError" "pl_ratingKey broken_list = Some ''P4''"
    by (simp_all add: broken_list_def)
  show ?thesis
    by (simp add: fetch_tracks_def Let_def c t l playlist_method_def i lib200_def)
qed

theorem cache_idempotent_witness:
  "pl_ratingKey big_mix = Some ''P1'' \<and> ''P1'' \<noteq> [] \<and>
   cached (Some ''P1'') (tracks_cache fresh) = None \<and>
   fetch_tracks (music_library fresh) big_mix None
     = ([Search None 50], Inr (replicate 50 band_track)) \<and>
   tracks_cache (load_playlist_tracks big_mix None fresh) = (tracks_cache fresh)(''P1'' \<mapsto> 1) \<and>
   store (load_playlist_tracks big_mix None fresh) 1 = replicate 50 band_track \<and>
   current_playlist (load_playlist_tracks big_mix None fresh) = 1 \<and>
   cached (Some ''P1'') (tracks_cache (load_playlist_tracks big_mix None fresh)) = Some 1 \<and>
   current_playlist (load_playlist_tracks big_mix None
      ((load_playlist_tracks big_mix None fresh)\<lparr>plex := None, music_library := None\<rparr>)) = 1 \<and>
   fetch_calls (load_playlist_tracks big_mix None
      ((load_playlist_tracks big_mix None fresh)\<lparr>plex := None, music_library := None\<rparr>))
     = fetch_calls (load_playlist_tracks big_mix None fresh) \<and>
   pl_ratingKey broken_list = Some ''P4'' \<and>
   cached (Some ''P4'') (tracks_cache fresh) = None \<and>
   fetch_tracks (music_library fresh) broken_list None
     = ([PlaylistItems (Some ''P4'')], Inl OtherError) \<and>
   tracks_cache (load_playlist_tracks broken_list None fresh) = tracks_cache fresh \<and>
   store (load_playlist_tracks big_mix None (load_playlist_tracks big_mix None fresh))
     = store (load_playlist_tracks big_mix None fresh)"
proof -
  let ?s1 = "load_playlist_tracks big_mix None fresh"
  let ?s2 = "load_playlist_tracks big_mix None (?s1\<lparr>plex := None, music_library := None\<rparr>)"
  have k: "pl_ratingKey big_mix = Some ''P1''" by (simp add: big_mix_def)
  have ne: "''P1'' \<noteq> []" by simp
  have m: "cached (Some ''P1'') (tracks_cache fresh) = None"
    by (simp add: cached_def fresh_fields)
  have f: "fetch_tracks (music_library fresh) big_mix None
     = ([Search None 50], Inr (replicate 50 band_track))"
    by (simp add: fresh_fields big_mix_fetch)
  note T = cache_idempotent [where p = big_mix and p' = big_mix and lim = None and s = fresh
      and lim' = None and px = None and ml = None, OF k ne k refl refl]
  from T [where cs = "[Search None 50]" and tracks = "replicate 50 band_track"] m f
  have miss: "tracks_cache ?s1 = (tracks_cache fresh)(''P1'' \<mapsto> next_addr fresh)"
    "store ?s1 = (store fresh)(next_addr fresh := replicate 50 band_track)"
    "current_playlist ?s1 = next_addr fresh" by blast+
  from T f have idem: "current_playlist ?s2 = current_playlist ?s1"
    "fetch_calls ?s2 = fetch_calls ?s1" by blast+
  from miss have c1: "cached (Some ''P1'') (tracks_cache ?s1) = Some 1"
    by (simp add: cached_def fresh_fields)
  have k4: "pl_ratingKey broken_list = Some ''P4''" by (simp add: broken_list_def)
  have ne4: "''P4'' \<noteq> []" by simp
  have m4: "cached (Some ''P4'') (tracks_cache fresh) = None"
    by (simp add: cached_def fresh_fields)
  have f4: "fetch_tracks (music_library fresh) broken_list None
     = ([PlaylistItems (Some ''P4'')], Inl OtherError)"
    by (simp add: fresh_fields broken_fetch)
  from cache_idempotent [where p = broken_list and p' = broken_list and lim = None
      and s = fresh and lim' = None and px = None and ml = None
      and cs = "[PlaylistItems (Some ''P4'')]" and e = OtherError, OF k4 ne4 k4 refl refl] m4 f4
  have fail: "tracks_cache (load_playlist_tracks broken_list None fresh) = tracks_cache fresh"
    by blast
  from cache_idempotent [where p = big_mix and p' = big_mix and lim = None and s = ?s1
      and lim' = None and px = None and ml = None and a = 1, OF k ne k refl refl] c1
  have hit: "store (load_playlist_tracks big_mix None ?s1) = store ?s1" by blast
  from k ne m f miss idem c1 k4 m4 f4 fail hit show ?thesis by (simp add: fresh_fields)
qed

lemma concat_replicate_commute:
  "concat (replicate n x) @ x = x @ concat (replicate n x)"
  by (induction n) simp_all

lemma display_step:
  "calls (update_playlist_display ts s) = calls s @ display_calls (plex s) ts"
  "plex (update_playlist_display ts s) = plex s"
  by (simp_all add: update_playlist_display_def)

lemma display_twice:
  "calls ((update_playlist_display ts ^^ n) s)
     = calls s @ concat (replicate n (display_calls (plex s) ts)) \<and>
   plex ((update_playlist_display ts ^^ n) s) = plex s"
proof (induction n)
  case 0
  show ?case by simp
next
  case (Suc n)
  then show ?case by (simp add: display_step concat_replicate_commute)
qed

lemma artist_calls_empty_iff:
  "snd (get_artist_name px t) = [] \<longleftrightarrow> \<not> falsy (local_methods t) \<or> raises_outside_try t"
  by (simp add: get_artist_name_eq chain_calls_empty_iff)

lemma reload_again:
  assumes "falsy (local_methods t)" and "\<not> raises_outside_try t" and "ratingKey t = Has k"
  shows "\<exists>rest. snd (get_artist_name (Some srv) t) = FetchItem k # rest"
proof -
  from assms(1,3) have "tier5 (Some srv) t (local_methods t)
      = method5 (Some srv) t (local_methods t)"
    by (simp add: tier5_def test_key_def)
  then have "\<exists>a. tier5 (Some srv) t (local_methods t) = (a, [FetchItem k])"
    using assms(3) by (cases "fetchItem srv k") (simp_all add: method5_def)
  then obtain a5 where m5: "tier5 (Some srv) t (local_methods t) = (a5, [FetchItem k])" ..
  obtain a6 c6 where m6: "method6 t a5 = (a6, c6)" by (cases "method6 t a5")
  from m5 m6 assms(2) show ?thesis by (simp add: get_artist_name_eq chain_def)
qed

lemma lookup_again:
  assumes "falsy (fst (tier5 px t (local_methods t)))" and "\<not> raises_outside_try t"
  shows "ArtistLookup \<in> set (snd (get_artist_name px t))"
proof -
  obtain a5 c5 where m5: "tier5 px t (local_methods t) = (a5, c5)"
    by (cases "tier5 px t (local_methods t)")
  with assms(1) have f: "falsy a5" by simp
  have "snd (method6 t a5) = [ArtistLookup]"
    using f by (cases "artist t") (simp_all add: method6_def split: option.splits)
  then have "\<exists>a. method6 t a5 = (a, [ArtistLookup])" by (cases "method6 t a5") simp
  then obtain a6 where m6: "method6 t a5 = (a6, [ArtistLookup])" ..
  from m5 m6 assms(2) show ?thesis by (simp add: get_artist_name_eq chain_def)
qed

text \<open>
  Claim C8, amended. The resolver keeps nothing on the track: it makes no remote call
  exactly when one of the four local methods finds a value or the resolution raises at
  one of the two reads outside the \<^verbatim>\<open>try\<close> blocks; otherwise every resolution of a
  track with a key calls the reload again and, while the artist is still empty after it,
  the artist lookup; \<open>n\<close> displays of a list issue the artist calls of that list
  \<open>n\<close> times.
\<close>

theorem artist_recomputed_each_time:
  "(snd (get_artist_name px t) = [] \<longleftrightarrow> \<not> falsy (local_methods t) \<or> raises_outside_try t) \<and>
   (falsy (local_methods t) \<and> \<not> raises_outside_try t \<and> ratingKey t = Has k \<longrightarrow>
      (\<exists>rest. snd (get_artist_name (Some srv) t) = FetchItem k # rest)) \<and>
   (falsy (fst (tier5 px t (local_methods t))) \<and> \<not> raises_outside_try t \<longrightarrow>
      ArtistLookup \<in> set (snd (get_artist_name px t))) \<and>
   calls ((update_playlist_display ts ^^ n) s)
     = calls s @ concat (replicate n (display_calls (plex s) ts))"
  using artist_calls_empty_iff [of px t] reload_again [of t k srv] lookup_again [of px t]
    display_twice [where ts = ts and n = n and s = s]
  by blast

lemma bare_local: "local_methods bare_track = None"
  by (simp add: local_methods_def method1_def tier2_def test_data_def method3_def method4_def
      from_attr_def falsy_def bare_track_def)

lemma bare_plain: "\<not> raises_outside_try bare_track"
  by (rule plain_reads) (simp_all add: bare_track_def)

lemma bare_tier5: "tier5 (Some server_down) bare_track None = (None, [FetchItem 7])"
  by (simp add: tier5_def test_key_def method5_def falsy_def bare_track_def server_down_def)

lemma bare_artist:
  "get_artist_name (Some server_down) bare_track = (Inr ''Unknown'', [FetchItem 7, ArtistLookup])"
proof -
  have k: "artist bare_track = Raises OtherError" by (simp add: bare_track_def)
  have "chain (Some server_down) bare_track = (None, [FetchItem 7, ArtistLookup])"
    by (simp add: chain_def bare_local bare_tier5 method6_def k falsy_def)
  then show ?thesis by (simp add: get_artist_name_eq bare_plain or_unknown_def)
qed

theorem artist_recomputed_each_time_witness:
  "falsy (local_methods bare_track) \<and> \<not> raises_outside_try bare_track \<and>
   ratingKey bare_track = Has 7 \<and>
   falsy (fst (tier5 (Some server_down) bare_track (local_methods bare_track))) \<and>
   snd (get_artist_name (Some server_down) bare_track) = [FetchItem 7, ArtistLookup] \<and>
   \<not> falsy (local_methods band_track) \<and> snd (get_artist_name (Some server_down) band_track) = [] \<and>
   raises_outside_try veiled_track \<and> snd (get_artist_name (Some server_down) veiled_track) = [] \<and>
   calls ((update_playlist_display [bare_track] ^^ 2) fresh)
     = [FetchItem 7, ArtistLookup, FetchItem 7, ArtistLookup]"
proof -
  have f: "falsy (local_methods bare_track)" by (simp add: bare_local falsy_def)
  have p: "\<not> raises_outside_try bare_track" by (rule bare_plain)
  have k: "ratingKey bare_track = Has 7" by (simp add: bare_track_def)
  have g: "falsy (fst (tier5 (Some server_down) bare_track (local_methods bare_track)))"
    by (simp add: bare_local bare_tier5 falsy_def)
  have b: "\<not> falsy (local_methods band_track)"
    by (simp add: local_methods_def method1_def tier2_def test_data_def method3_def method4_def
        from_attr_def falsy_def band_track_def strip_def is_space_def)
  have v: "raises_outside_try veiled_track"
    by (simp add: raises_outside_try_def method1_def from_attr_def falsy_def veiled_track_def)
  have d: "display_calls (Some server_down) [bare_track] = [FetchItem 7, ArtistLookup]"
    by (simp add: display_calls_def bare_artist)
  note T = artist_recomputed_each_time [where srv = server_down and ts = "[bare_track]"
      and n = 2 and s = fresh]
  from T [where t = bare_track and k = 7 and px = "Some server_down"] f p k
  obtain rest where r: "snd (get_artist_name (Some server_down) bare_track) = FetchItem 7 # rest"
    by blast
  from T [where t = bare_track and k = 7 and px = "Some server_down"] g p
  have a: "ArtistLookup \<in> set (snd (get_artist_name (Some server_down) bare_track))" by blast
  from T [where t = band_track and k = 7 and px = "Some server_down"] b
  have e: "snd (get_artist_name (Some server_down) band_track) = []" by blast
  from T [where t = veiled_track and k = 7 and px = "Some server_down"] v
  have w: "snd (get_artist_name (Some server_down) veiled_track) = []" by blast
  from T [where t = band_track and k = 7 and px = "Some server_down"]
  have c: "calls ((update_playlist_display [bare_track] ^^ 2) fresh)
     = calls fresh @ concat (replicate 2 (display_calls (plex fresh) [bare_track]))" by blast
  have two: "replicate 2 x = [x, x]" for x :: "call list" by (simp add: numeral_2_eq_2)
  from f p k g r a e b v w c show ?thesis by (simp add: bare_artist fresh_fields d two)
qed

lemma one_bare_fetch:
  "fetch_tracks (Some lib200) one_bare None = ([PlaylistItems (Some ''P3'')], Inr [bare_track])"
proof -
  have c: "playlist_count one_bare = Some 1" by (simp add: playlist_count_def one_bare_def)
  have t: "\<not> recent_title (pl_title one_bare)" by (simp add: recent_title_def one_bare_def)
  have l: "\<not> is_large_playlist (Some 1)"
    by (simp add: is_large_playlist_def LARGE_PLAYLIST_THRESHOLD_def)
  have i: "items one_bare = Returns (Seq [bare_track] None)" "pl_ratingKey one_bare = Some ''P3''"
    by (simp_all add: one_bare_def)
  have h: "the_limit None (Some 1) = 100"
    by (simp add: the_limit_def l REGULAR_PLAYLIST_LIMIT_def)
  show ?thesis
    by (simp add: fetch_tracks_def Let_def c t l h playlist_method_def i lib200_def loop_into_eq)
qed

text \<open>
  The claim as stated fails for a track without local artist fields: loading its playlist
  twice (the second load is a cache hit) reloads the track and looks its artist up twice.
\<close>

theorem redisplay_reloads_artist:
  "cached (pl_ratingKey one_bare) (tracks_cache (load_playlist_tracks one_bare None fresh)) = Some 1 \<and>
   calls (load_playlist_tracks one_bare None fresh)
     = [PlaylistItems (Some ''P3''), FetchItem 7, ArtistLookup] \<and>
   calls (load_playlist_tracks one_bare None (load_playlist_tracks one_bare None fresh))
     = [PlaylistItems (Some ''P3''), FetchItem 7, ArtistLookup, FetchItem 7, ArtistLookup]"
proof -
  let ?s1 = "load_playlist_tracks one_bare None fresh"
  have k: "pl_ratingKey one_bare = Some ''P3''" by (simp add: one_bare_def)
  have m: "cached (pl_ratingKey one_bare) (tracks_cache fresh) = None"
    by (simp add: cached_def fresh_fields k)
  have f: "fetch_tracks (music_library fresh) one_bare None
      = ([PlaylistItems (Some ''P3'')], Inr [bare_track])"
    by (simp add: fresh_fields one_bare_fetch)
  have d: "display_calls (Some server_down) [bare_track] = [FetchItem 7, ArtistLookup]"
    by (simp add: display_calls_def bare_artist)
  have s1: "?s1 = fresh\<lparr>calls := [PlaylistItems (Some ''P3''), FetchItem 7, ArtistLookup],
      store := (store fresh)(1 := [bare_track]), next_addr := 2,
      tracks_cache := (tracks_cache fresh)(''P3'' \<mapsto> 1), current_playlist := 1,
      current_index := 0\<rparr>"
    by (simp add: load_miss [OF m f] update_playlist_display_def fresh_fields d cache_put_def k)
  have h: "cached (pl_ratingKey one_bare) (tracks_cache ?s1) = Some 1"
    by (simp add: s1 cached_def k)
  have c1: "calls ?s1 = [PlaylistItems (Some ''P3''), FetchItem 7, ArtistLookup]"
    by (simp add: s1)
  have st: "store ?s1 (Suc 0) = [bare_track]" "plex ?s1 = Some server_down"
    by (simp_all add: s1 fresh_fields)
  have c2: "calls (load_playlist_tracks one_bare None ?s1)
     = [PlaylistItems (Some ''P3''), FetchItem 7, ArtistLookup, FetchItem 7, ArtistLookup]"
    by (simp add: load_hit [OF h] update_playlist_display_def c1 st d)
  from h c1 c2 show ?thesis by blast
qed

section \<open>The cursor and the shared list\<close>

lemma shuffle_loop_length: "length (shuffle_loop i rs x) = length x"
  by (induction i rs x rule: shuffle_loop.induct) (simp_all add: Let_def)

lemma shuffle_length: "length (shuffle rs x) = length x"
  by (simp add: shuffle_def shuffle_loop_length)

lemma shuffle_nonempty: "shuffle rs x = [] \<longleftrightarrow> x = []"
  using shuffle_length [of rs x] by (metis length_0_conv)

lemma randbelow_less: "0 < n \<Longrightarrow> randbelow n rs < n"
  by (cases rs) (simp_all add: randbelow_def)

lemma shuffle_loop_mset: "i < length x \<Longrightarrow> mset (shuffle_loop i rs x) = mset x"
proof (induction i rs x rule: shuffle_loop.induct)
  case (1 rs x)
  show ?case by simp
next
  case (2 i rs x)
  let ?j = "randbelow (Suc i + 1) rs"
  have j: "?j < length x" using randbelow_less [of "Suc i + 1" rs] "2.prems" by simp
  have l: "i < length (x[Suc i := x ! ?j, ?j := x ! Suc i])" using "2.prems" by simp
  have "mset (shuffle_loop (Suc i) rs x) = mset (x[Suc i := x ! ?j, ?j := x ! Suc i])"
    using "2.IH" [OF refl l] by (simp add: Let_def)
  also have "\<dots> = mset x" using j "2.prems" by (simp add: mset_swap)
  finally show ?case .
qed

lemma shuffle_mset: "mset (shuffle rs x) = mset x"
  by (cases x) (simp_all add: shuffle_def shuffle_loop_mset)

lemma play_track_frame:
  "current_playlist (play_track t s) = current_playlist s"
  "current_index (play_track t s) = current_index s"
  "store (play_track t s) = store s"
  "tracks_cache (play_track t s) = tracks_cache s"
  "playlist_now (play_track t s) = playlist_now s"
  by (simp_all add: play_track_def playlist_now_def Let_def split: sum.splits)

lemma display_frame:
  "current_playlist (update_playlist_display ts s) = current_playlist s"
  "current_index (update_playlist_display ts s) = current_index s"
  "store (update_playlist_display ts s) = store s"
  "tracks_cache (update_playlist_display ts s) = tracks_cache s"
  "playlist_now (update_playlist_display ts s) = playlist_now s"
  by (simp_all add: update_playlist_display_def playlist_now_def)

lemma load_cursor:
  "current_index (load_playlist_tracks p lim s) = 0 \<or>
   (current_playlist (load_playlist_tracks p lim s) = current_playlist s \<and>
    store (load_playlist_tracks p lim s) = store s \<and>
    current_index (load_playlist_tracks p lim s) = current_index s)"
  by (simp add: load_playlist_tracks_def display_frame split: option.splits sum.splits prod.splits)

lemma cursor_ok_zero: "current_index s = 0 \<Longrightarrow> cursor_ok s"
  by (simp add: cursor_ok_def)

lemma load_ok: "cursor_ok s \<Longrightarrow> cursor_ok (load_playlist_tracks p lim s)"
  using load_cursor [of p lim s] by (auto simp: cursor_ok_def playlist_now_def)

lemma next_ok: "cursor_ok s \<Longrightarrow> cursor_ok (action_next s)"
  by (auto simp: action_next_def cursor_ok_def Let_def play_track_frame playlist_now_def
      split: option.splits)

lemma previous_ok: "cursor_ok s \<Longrightarrow> cursor_ok (action_previous s)"
  by (auto simp: action_previous_def cursor_ok_def Let_def play_track_frame playlist_now_def
      split: option.splits)

lemma random_index: "playlist_now s \<noteq> [] \<Longrightarrow> current_index (action_random rs s) = 0"
  by (simp add: action_random_def Let_def play_track_frame)

lemma random_ok: "cursor_ok s \<Longrightarrow> cursor_ok (action_random rs s)"
proof (cases "playlist_now s = []")
  case True
  then show "cursor_ok s \<Longrightarrow> cursor_ok (action_random rs s)" by (simp add: action_random_def)
next
  case False
  then show ?thesis using cursor_ok_zero [OF random_index] by blast
qed

lemma play_pause_ok: "cursor_ok s \<Longrightarrow> cursor_ok (action_play_pause rs s)"
proof -
  assume ok: "cursor_ok s"
  have toggle: "cursor_ok (s\<lparr>is_playing := b\<rparr>)" for b
    using ok by (simp add: cursor_ok_def playlist_now_def)
  have start: "cursor_ok (play_track t (x\<lparr>current_index := 0\<rparr>))" for t x
    by (rule cursor_ok_zero) (simp add: play_track_frame)
  show ?thesis
    using ok toggle start load_ok [OF ok]
    by (simp add: action_play_pause_def Let_def split: option.splits)
qed

lemma load_playlist_ok: "cursor_ok s \<Longrightarrow> cursor_ok (action_load_playlist s)"
proof -
  assume ok: "cursor_ok s"
  have h: "cursor_ok (s\<lparr>highlighted_playlist := x\<rparr>)" for x
    using ok by (simp add: cursor_ok_def playlist_now_def)
  show ?thesis
    using ok load_ok [OF ok] load_ok [OF h]
    by (simp add: action_load_playlist_def split: option.splits)
qed

lemma selected_ok: "cursor_ok s \<Longrightarrow> cursor_ok (on_list_view_selected k s)"
proof -
  assume ok: "cursor_ok s"
  have a: "cursor_ok (s\<lparr>highlighted_playlist_key := x\<rparr>)" for x
    using ok by (simp add: cursor_ok_def playlist_now_def)
  have b: "cursor_ok (s\<lparr>highlighted_playlist_key := x, highlighted_playlist := y\<rparr>)" for x y
    using ok by (simp add: cursor_ok_def playlist_now_def)
  have c: "cursor_ok (s\<lparr>highlighted_playlist_key := x, highlighted_playlist := y,
      current_process := False, is_playing := False\<rparr>)" for x y
    using ok by (simp add: cursor_ok_def playlist_now_def)
  show ?thesis
    using a load_ok [OF b] load_ok [OF c]
    by (simp add: on_list_view_selected_def Let_def split: option.splits)
qed

lemma step_ok: "cursor_ok s \<Longrightarrow> cursor_ok (step s e)"
proof (cases e)
  case (Highlighted k)
  assume "cursor_ok s"
  then show ?thesis using Highlighted
    by (simp add: on_list_view_highlighted_def cursor_ok_def playlist_now_def)
next
  case (PlayTrack t)
  assume "cursor_ok s"
  then show ?thesis using PlayTrack by (simp add: cursor_ok_def play_track_frame)
next
  case (ServerNow px ml pc)
  assume "cursor_ok s"
  then show ?thesis using ServerNow by (simp add: cursor_ok_def playlist_now_def)
qed (simp_all add: next_ok previous_ok random_ok play_pause_ok load_playlist_ok selected_ok)

lemma run_ok: "cursor_ok s \<Longrightarrow> cursor_ok (run s evs)"
  unfolding run_def by (induction evs arbitrary: s) (simp_all add: step_ok)

lemma startup_ok: "cursor_ok (startup px ml pc pf sg)"
  by (simp add: cursor_ok_def startup_def playlist_now_def)

lemma load_resets:
  "current_playlist (load_playlist_tracks p lim s) \<noteq> current_playlist s \<or>
   playlist_now (load_playlist_tracks p lim s) \<noteq> playlist_now s \<Longrightarrow>
   current_index (load_playlist_tracks p lim s) = 0"
  using load_cursor [of p lim s] by (auto simp: playlist_now_def)

lemma play_pause_resets:
  "current_playlist (action_play_pause rs s) \<noteq> current_playlist s \<or>
   playlist_now (action_play_pause rs s) \<noteq> playlist_now s \<Longrightarrow>
   current_index (action_play_pause rs s) = 0"
  using load_resets [of _ None s]
  by (auto simp: action_play_pause_def Let_def play_track_frame playlist_now_def
      split: option.splits if_splits)

lemma load_playlist_resets:
  "current_playlist (action_load_playlist s) \<noteq> current_playlist s \<or>
   playlist_now (action_load_playlist s) \<noteq> playlist_now s \<Longrightarrow>
   current_index (action_load_playlist s) = 0"
  using load_resets [of _ None s] load_resets [of _ None "s\<lparr>highlighted_playlist := x\<rparr>" for x]
  by (auto simp: action_load_playlist_def playlist_now_def split: option.splits if_splits)

lemma selected_resets:
  "current_playlist (on_list_view_selected k s) \<noteq> current_playlist s \<or>
   playlist_now (on_list_view_selected k s) \<noteq> playlist_now s \<Longrightarrow>
   current_index (on_list_view_selected k s) = 0"
  using load_resets [of _ None "s\<lparr>highlighted_playlist_key := Some k, highlighted_playlist := x\<rparr>" for x]
    load_resets [of _ None "s\<lparr>highlighted_playlist_key := Some k, highlighted_playlist := x,
      current_process := False, is_playing := False\<rparr>" for x]
  by (auto simp: on_list_view_selected_def Let_def playlist_now_def split: option.splits if_splits)

lemma next_resets:
  "current_playlist (action_next s) = current_playlist s \<and>
   playlist_now (action_next s) = playlist_now s"
  by (simp add: action_next_def Let_def play_track_frame playlist_now_def split: option.splits)

lemma previous_resets:
  "current_playlist (action_previous s) = current_playlist s \<and>
   playlist_now (action_previous s) = playlist_now s"
  by (simp add: action_previous_def Let_def play_track_frame playlist_now_def split: option.splits)

lemma random_resets:
  "current_playlist (action_random rs s) \<noteq> current_playlist s \<or>
   playlist_now (action_random rs s) \<noteq> playlist_now s \<Longrightarrow>
   current_index (action_random rs s) = 0"
  by (cases "playlist_now s = []") (simp_all add: random_index, simp add: action_random_def)

lemma step_resets:
  "current_playlist (step s e) \<noteq> current_playlist s \<or>
   playlist_now (step s e) \<noteq> playlist_now s \<Longrightarrow>
   current_index (step s e) = 0"
proof (cases e)
  case Next
  then show "current_playlist (step s e) \<noteq> current_playlist s \<or>
   playlist_now (step s e) \<noteq> playlist_now s \<Longrightarrow> ?thesis" using next_resets [of s] by simp
next
  case Previous
  then show "current_playlist (step s e) \<noteq> current_playlist s \<or>
   playlist_now (step s e) \<noteq> playlist_now s \<Longrightarrow> ?thesis" using previous_resets [of s] by simp
next
  case (Random rs)
  then show "current_playlist (step s e) \<noteq> current_playlist s \<or>
   playlist_now (step s e) \<noteq> playlist_now s \<Longrightarrow> ?thesis" using random_resets [of rs s] by simp
next
  case (PlayPause rs)
  then show "current_playlist (step s e) \<noteq> current_playlist s \<or>
   playlist_now (step s e) \<noteq> playlist_now s \<Longrightarrow> ?thesis" using play_pause_resets [of rs s] by simp
next
  case LoadPlaylist
  then show "current_playlist (step s e) \<noteq> current_playlist s \<or>
   playlist_now (step s e) \<noteq> playlist_now s \<Longrightarrow> ?thesis" using load_playlist_resets [of s] by simp
next
  case (Highlighted k)
  then show "current_playlist (step s e) \<noteq> current_playlist s \<or>
   playlist_now (step s e) \<noteq> playlist_now s \<Longrightarrow> ?thesis"
    by (simp add: on_list_view_highlighted_def playlist_now_def)
next
  case (Selected k)
  then show "current_playlist (step s e) \<noteq> current_playlist s \<or>
   playlist_now (step s e) \<noteq> playlist_now s \<Longrightarrow> ?thesis" using selected_resets [of k s] by simp
next
  case (PlayTrack t)
  then show "current_playlist (step s e) \<noteq> current_playlist s \<or>
   playlist_now (step s e) \<noteq> playlist_now s \<Longrightarrow> ?thesis" by (simp add: play_track_frame)
next
  case (ServerNow px ml pc)
  then show "current_playlist (step s e) \<noteq> current_playlist s \<or>
   playlist_now (step s e) \<noteq> playlist_now s \<Longrightarrow> ?thesis" by (simp add: playlist_now_def)
qed

lemma next_index:
  "current_index (action_next s) =
     (if playlist_now s \<noteq> [] \<and> current_index s < int (length (playlist_now s)) - 1
      then current_index s + 1 else current_index s)"
  by (simp add: action_next_def Let_def play_track_frame split: option.splits)

lemma previous_index:
  "current_index (action_previous s) =
     (if playlist_now s \<noteq> [] \<and> current_index s > 0
      then current_index s - 1 else current_index s)"
  by (simp add: action_previous_def Let_def play_track_frame split: option.splits)

lemma random_permutes:
  "mset (playlist_now (action_random rs s)) = mset (playlist_now s)"
  by (simp add: action_random_def Let_def play_track_frame playlist_now_def shuffle_mset)

text \<open>
  Claim C9. After any sequence of events from the start, the cursor is at least 0, below
  the length of the current list when that list is not empty, and 0 when it is empty.
  \<open>action_next\<close> and \<open>action_previous\<close> change nothing on an empty list and at their
  boundary, and otherwise move the cursor by exactly one. Whenever a step changes the
  current list (its address or its contents) the cursor is 0 afterwards, and the random
  action on a non-empty list permutes it and sets the cursor to 0.
\<close>

theorem cursor_in_bounds:
  "0 \<le> current_index (run (startup px ml pc pf sg) evs) \<and>
   (playlist_now (run (startup px ml pc pf sg) evs) \<noteq> [] \<longrightarrow>
      current_index (run (startup px ml pc pf sg) evs)
        < int (length (playlist_now (run (startup px ml pc pf sg) evs)))) \<and>
   (playlist_now (run (startup px ml pc pf sg) evs) = [] \<longrightarrow>
      current_index (run (startup px ml pc pf sg) evs) = 0) \<and>
   (playlist_now s = [] \<longrightarrow> action_next s = s \<and> action_previous s = s) \<and>
   (current_index s = int (length (playlist_now s)) - 1 \<longrightarrow> action_next s = s) \<and>
   (current_index s = 0 \<longrightarrow> action_previous s = s) \<and>
   current_index (action_next s) =
     (if playlist_now s \<noteq> [] \<and> current_index s < int (length (playlist_now s)) - 1
      then current_index s + 1 else current_index s) \<and>
   current_index (action_previous s) =
     (if playlist_now s \<noteq> [] \<and> current_index s > 0
      then current_index s - 1 else current_index s) \<and>
   (current_playlist (step s e) \<noteq> current_playlist s \<or>
    playlist_now (step s e) \<noteq> playlist_now s \<longrightarrow> current_index (step s e) = 0) \<and>
   (playlist_now s \<noteq> [] \<longrightarrow> current_index (action_random rs s) = 0) \<and>
   mset (playlist_now (action_random rs s)) = mset (playlist_now s)"
proof -
  let ?r = "run (startup px ml pc pf sg) evs"
  have ok: "cursor_ok ?r" by (rule run_ok) (rule startup_ok)
  then have 1: "0 \<le> current_index ?r"
    and 3: "playlist_now ?r = [] \<longrightarrow> current_index ?r = 0"
    by (auto simp: cursor_ok_def)
  have 2: "playlist_now ?r \<noteq> [] \<longrightarrow> current_index ?r < int (length (playlist_now ?r))"
  proof
    assume "playlist_now ?r \<noteq> []"
    then have "1 \<le> int (length (playlist_now ?r))" by (cases "playlist_now ?r") simp_all
    with ok show "current_index ?r < int (length (playlist_now ?r))"
      by (simp add: cursor_ok_def)
  qed
  have 4: "playlist_now s = [] \<longrightarrow> action_next s = s \<and> action_previous s = s"
    by (simp add: action_next_def action_previous_def)
  have 5: "current_index s = int (length (playlist_now s)) - 1 \<longrightarrow> action_next s = s"
    by (simp add: action_next_def)
  have 6: "current_index s = 0 \<longrightarrow> action_previous s = s"
    by (simp add: action_previous_def)
  from 1 2 3 4 5 6 next_index [of s] previous_index [of s] step_resets [of s e]
    random_index [of s rs] random_permutes [of rs s]
  show ?thesis by blast
qed

lemma trio_fetch:
  "fetch_tracks (Some lib200) trio None
     = ([PlaylistItems (Some ''P5'')], Inr [band_track, raw_track, unknown_track])"
proof -
  have c: "playlist_count trio = Some 3" by (simp add: playlist_count_def trio_def)
  have t: "\<not> recent_title (pl_title trio)" by (simp add: recent_title_def trio_def)
  have l: "\<not> is_large_playlist (Some 3)"
    by (simp add: is_large_playlist_def LARGE_PLAYLIST_THRESHOLD_def)
  have i: "items trio = Returns (Seq [band_track, raw_track, unknown_track] None)"
    "pl_ratingKey trio = Some ''P5''"
    by (simp_all add: trio_def)
  have h: "the_limit None (Some 3) = 100"
    by (simp add: the_limit_def l REGULAR_PLAYLIST_LIMIT_def)
  show ?thesis
    by (simp add: fetch_tracks_def Let_def c t l h playlist_method_def i loop_into_eq)
qed

lemma session_fields:
  "tracks_cache session = Map.empty" "music_library session = Some lib200"
  "next_addr session = 1" "current_playlist session = 0" "store session = (\<lambda>a. [])"
  "current_process session = False" "playlist_cache session ''P5'' = Some trio"
  "current_index session = 0" "playlist_now session = []"
  by (simp_all add: session_def startup_def playlist_now_def)

lemma session_selected:
  "current_playlist (step session (Selected ''P5'')) = 1"
  "playlist_now (step session (Selected ''P5'')) = [band_track, raw_track, unknown_track]"
  "current_index (step session (Selected ''P5'')) = 0"
proof -
  let ?s = "session\<lparr>highlighted_playlist_key := Some ''P5'', highlighted_playlist := Some trio\<rparr>"
  have e: "on_list_view_selected ''P5'' session = load_playlist_tracks trio None ?s"
    by (simp add: on_list_view_selected_def Let_def session_fields)
  have k: "pl_ratingKey trio = Some ''P5''" by (simp add: trio_def)
  have m: "cached (pl_ratingKey trio) (tracks_cache ?s) = None"
    by (simp add: cached_def k session_fields)
  have f: "fetch_tracks (music_library ?s) trio None
      = ([PlaylistItems (Some ''P5'')], Inr [band_track, raw_track, unknown_track])"
    by (simp add: session_fields trio_fetch)
  from miss_effects [OF m f]
  show "current_playlist (step session (Selected ''P5'')) = 1"
    "playlist_now (step session (Selected ''P5'')) = [band_track, raw_track, unknown_track]"
    "current_index (step session (Selected ''P5'')) = 0"
    by (simp_all add: e playlist_now_def session_fields)
qed

theorem cursor_in_bounds_witness:
  "playlist_now (run session [Selected ''P5'', Next]) \<noteq> [] \<and>
   current_index (run session [Selected ''P5'', Next]) = 1 \<and>
   length (playlist_now (run session [Selected ''P5'', Next])) = 3 \<and>
   playlist_now (run session []) = [] \<and> current_index (run session []) = 0 \<and>
   action_next session = session \<and> action_previous session = session \<and>
   current_index (run session [Selected ''P5'', Next, Next]) = 2 \<and>
   action_next (run session [Selected ''P5'', Next, Next]) = run session [Selected ''P5'', Next, Next] \<and>
   current_index (run session [Selected ''P5'']) = 0 \<and>
   action_previous (run session [Selected ''P5'']) = run session [Selected ''P5''] \<and>
   current_playlist (step session (Selected ''P5'')) \<noteq> current_playlist session \<and>
   current_index (step session (Selected ''P5'')) = 0 \<and>
   current_index (action_random [2, 0] (run session [Selected ''P5'', Next])) = 0"
proof -
  let ?s1 = "step session (Selected ''P5'')"
  let ?s2 = "action_next ?s1"
  let ?s3 = "action_next ?s2"
  have r0: "run session [] = session" by (simp add: run_def)
  have r1: "run session [Selected ''P5''] = ?s1" by (simp add: run_def)
  have r2: "run session [Selected ''P5'', Next] = ?s2" by (simp add: run_def)
  have r3: "run session [Selected ''P5'', Next, Next] = ?s3" by (simp add: run_def)
  have ss: "session = startup (Some server_down) (Some lib200) [''P5'' \<mapsto> trio] True True"
    by (simp add: session_def)
  note T = cursor_in_bounds [where px = "Some server_down" and ml = "Some lib200"
      and pc = "[''P5'' \<mapsto> trio]" and pf = True and sg = True, folded ss]
  have p2: "playlist_now ?s2 = [band_track, raw_track, unknown_track]"
    using next_resets [of ?s1] session_selected by simp
  have p3: "playlist_now ?s3 = [band_track, raw_track, unknown_track]"
    using next_resets [of ?s2] p2 by simp
  from T [where s = ?s1 and evs = "[]"] session_selected
  have i2: "current_index ?s2 = 1" by simp
  from T [where s = ?s2 and evs = "[]"] p2 i2
  have i3: "current_index ?s3 = 2" by simp
  from T [where evs = "[Selected ''P5'', Next]" and s = session] r2 p2
  have b2: "current_index ?s2 < 3" by simp
  from T [where evs = "[]" and s = session] session_fields
  have n0: "action_next session = session" "action_previous session = session" by blast+
  from T [where evs = "[]" and s = ?s3] p3 i3
  have n3: "action_next ?s3 = ?s3" by simp
  from T [where evs = "[]" and s = ?s1] session_selected
  have n1: "action_previous ?s1 = ?s1" by blast
  from T [where evs = "[]" and s = session and e = "Selected ''P5''"] session_selected session_fields
  have c1: "current_index ?s1 = 0" by simp
  from T [where evs = "[]" and s = ?s2 and rs = "[2, 0]"] p2
  have rd: "current_index (action_random [2, 0] ?s2) = 0" by simp
  from r0 r1 r2 r3 p2 i2 i3 n0 n3 n1 c1 rd session_selected session_fields
  show ?thesis by simp
qed

lemma random_effects:
  assumes "playlist_now s \<noteq> []"
  shows "store (action_random rs s) = (store s)(current_playlist s := shuffle rs (playlist_now s))"
    and "tracks_cache (action_random rs s) = tracks_cache s"
    and "current_playlist (action_random rs s) = current_playlist s"
  using assms by (simp_all add: action_random_def Let_def play_track_frame)

lemma hit_now:
  "cached (pl_ratingKey p) (tracks_cache s) = Some a \<Longrightarrow>
   playlist_now (load_playlist_tracks p lim s) = store s a"
  by (simp add: playlist_now_def hit_effects)

lemma shuffle_then_hit:
  assumes c: "cached (pl_ratingKey p) (tracks_cache s) = Some a" and ne: "store s a \<noteq> []"
  shows "store (action_random rs (load_playlist_tracks p lim s)) a = shuffle rs (store s a)"
    and "cached (pl_ratingKey p) (tracks_cache (action_random rs (load_playlist_tracks p lim s)))
           = Some a"
    and "playlist_now (load_playlist_tracks p lim' (action_random rs (load_playlist_tracks p lim s)))
           = shuffle rs (store s a)"
proof -
  let ?s1 = "load_playlist_tracks p lim s"
  let ?s2 = "action_random rs ?s1"
  from c ne have n1: "playlist_now ?s1 \<noteq> []" by (simp add: hit_now)
  from random_effects [OF n1, of rs] c
  show st: "store ?s2 a = shuffle rs (store s a)"
    by (simp add: hit_effects hit_now)
  from random_effects(2) [OF n1, of rs] c
  show c2: "cached (pl_ratingKey p) (tracks_cache ?s2) = Some a"
    by (simp add: hit_effects)
  from hit_now [OF c2, of lim'] st
  show "playlist_now (load_playlist_tracks p lim' ?s2) = shuffle rs (store s a)" by simp
qed

lemma play_pause_auto:
  assumes c: "cached (pl_ratingKey p) (tracks_cache s) = Some a"
    and idle: "\<not> current_process s" "playlist_now s = []" "highlighted_playlist s = Some p"
  shows "store (action_play_pause rs s) =
           (if length (store s a) > 50 then (store s)(a := shuffle rs (store s a)) else store s)"
    and "tracks_cache (action_play_pause rs s) = tracks_cache s"
proof -
  let ?s1 = "load_playlist_tracks p None s"
  have f: "playlist_now ?s1 = store s a" "current_playlist ?s1 = a" "store ?s1 = store s"
    "tracks_cache ?s1 = tracks_cache s"
    using c by (simp_all add: hit_now hit_effects)
  show "store (action_play_pause rs s) =
           (if length (store s a) > 50 then (store s)(a := shuffle rs (store s a)) else store s)"
    using idle f by (simp add: action_play_pause_def Let_def play_track_frame)
  show "tracks_cache (action_play_pause rs s) = tracks_cache s"
    using idle f by (simp add: action_play_pause_def Let_def play_track_frame)
qed

text \<open>
  Claim C10. On a cache hit the current list is the cached address itself. The random
  action then writes the shuffled order at that address, and so does the play action when
  it loads the highlighted playlist from the cache and finds more than 50 tracks; the key
  stays cached at the address, and the next hit shows the shuffled order, a permutation
  of the cached list.
\<close>

theorem shuffle_permutes_cache_entry:
  assumes "cached (pl_ratingKey p) (tracks_cache s) = Some a"
  shows
   "current_playlist (load_playlist_tracks p lim s) = a \<and>
    store (load_playlist_tracks p lim s) = store s \<and>
    (store s a \<noteq> [] \<longrightarrow>
       store (action_random rs (load_playlist_tracks p lim s)) a = shuffle rs (store s a) \<and>
       cached (pl_ratingKey p) (tracks_cache (action_random rs (load_playlist_tracks p lim s)))
         = Some a \<and>
       playlist_now (load_playlist_tracks p lim' (action_random rs (load_playlist_tracks p lim s)))
         = shuffle rs (store s a)) \<and>
    (\<not> current_process s \<and> playlist_now s = [] \<and> highlighted_playlist s = Some p \<and>
     length (store s a) > 50 \<longrightarrow>
       store (action_play_pause rs s) a = shuffle rs (store s a) \<and>
       cached (pl_ratingKey p) (tracks_cache (action_play_pause rs s)) = Some a \<and>
       playlist_now (load_playlist_tracks p lim' (action_play_pause rs s))
         = shuffle rs (store s a)) \<and>
    mset (shuffle rs (store s a)) = mset (store s a)"
proof (intro conjI impI)
  show "current_playlist (load_playlist_tracks p lim s) = a"
    "store (load_playlist_tracks p lim s) = store s"
    using assms by (simp_all add: hit_effects)
next
  assume ne: "store s a \<noteq> []"
  from shuffle_then_hit [OF assms ne]
  show "store (action_random rs (load_playlist_tracks p lim s)) a = shuffle rs (store s a)"
    "cached (pl_ratingKey p) (tracks_cache (action_random rs (load_playlist_tracks p lim s)))
         = Some a"
    "playlist_now (load_playlist_tracks p lim' (action_random rs (load_playlist_tracks p lim s)))
         = shuffle rs (store s a)" by simp_all
next
  assume h: "\<not> current_process s \<and> playlist_now s = [] \<and> highlighted_playlist s = Some p \<and>
     length (store s a) > 50"
  then have idle: "\<not> current_process s" "playlist_now s = []" "highlighted_playlist s = Some p"
    and big: "length (store s a) > 50" by simp_all
  from play_pause_auto [OF assms idle, of rs] big
  show st: "store (action_play_pause rs s) a = shuffle rs (store s a)" by simp
  from play_pause_auto(2) [OF assms idle, of rs] assms
  show c2: "cached (pl_ratingKey p) (tracks_cache (action_play_pause rs s)) = Some a" by simp
  from hit_now [OF c2, of lim'] st
  show "playlist_now (load_playlist_tracks p lim' (action_play_pause rs s))
         = shuffle rs (store s a)" by simp
next
  show "mset (shuffle rs (store s a)) = mset (store s a)" by (rule shuffle_mset)
qed

lemma shuffle_three: "shuffle [0, 0] [a, b, c] = [b, c, a]"
  by (simp add: shuffle_def randbelow_def Let_def numeral_2_eq_2)

theorem shuffle_permutes_cache_entry_witness:
  "cached (pl_ratingKey trio) (tracks_cache (step session (Selected ''P5''))) = Some 1 \<and>
   store (step session (Selected ''P5'')) 1 = [band_track, raw_track, unknown_track] \<and>
   playlist_now (load_playlist_tracks trio None
      (action_random [0, 0] (load_playlist_tracks trio None (step session (Selected ''P5'')))))
     = [raw_track, unknown_track, band_track] \<and>
   cached (pl_ratingKey big_mix) (tracks_cache parked) = Some 5 \<and>
   \<not> current_process parked \<and> playlist_now parked = [] \<and>
   highlighted_playlist parked = Some big_mix \<and> length (store parked 5) > 50 \<and>
   playlist_now (load_playlist_tracks big_mix None (action_play_pause [0] parked))
     = shuffle [0] (band_track # replicate 50 raw_track)"
proof -
  let ?s1 = "step session (Selected ''P5'')"
  have k: "pl_ratingKey trio = Some ''P5''" by (simp add: trio_def)
  let ?s = "session\<lparr>highlighted_playlist_key := Some ''P5'', highlighted_playlist := Some trio\<rparr>"
  have e: "on_list_view_selected ''P5'' session = load_playlist_tracks trio None ?s"
    by (simp add: on_list_view_selected_def Let_def session_fields)
  have m: "cached (pl_ratingKey trio) (tracks_cache ?s) = None"
    by (simp add: cached_def k session_fields)
  have f: "fetch_tracks (music_library ?s) trio None
      = ([PlaylistItems (Some ''P5'')], Inr [band_track, raw_track, unknown_track])"
    by (simp add: session_fields trio_fetch)
  from miss_effects [OF m f]
  have c1: "cached (pl_ratingKey trio) (tracks_cache ?s1) = Some 1"
    and st: "store ?s1 1 = [band_track, raw_track, unknown_track]"
    by (simp_all add: e session_fields cached_def cache_put_def k)
  from st have ne: "store ?s1 1 \<noteq> []" by simp
  from shuffle_permutes_cache_entry [OF c1, where rs = "[0, 0]" and lim = None and lim' = None]
    ne st
  have r: "playlist_now (load_playlist_tracks trio None
      (action_random [0, 0] (load_playlist_tracks trio None ?s1)))
     = [raw_track, unknown_track, band_track]"
    by (simp add: shuffle_three)
  have pk: "cached (pl_ratingKey big_mix) (tracks_cache parked) = Some 5"
    by (simp add: cached_def parked_def big_mix_def)
  have idle: "\<not> current_process parked" "playlist_now parked = []"
    "highlighted_playlist parked = Some big_mix"
    by (simp_all add: parked_def session_def startup_def playlist_now_def)
  have sp: "store parked 5 = band_track # replicate 50 raw_track" by (simp add: parked_def)
  then have big: "length (store parked 5) > 50" by simp
  from shuffle_permutes_cache_entry [OF pk, where rs = "[0]" and lim = None and lim' = None]
    idle big sp
  have a: "playlist_now (load_playlist_tracks big_mix None (action_play_pause [0] parked))
     = shuffle [0] (band_track # replicate 50 raw_track)" by simp
  from c1 st r pk idle big a show ?thesis by blast
qed

section \<open>Allocation\<close>

text \<open>
  A fetch allocates an address that neither the current list nor any cache entry uses, in
  every state the events can reach from the start; the lists already cached keep their
  contents across a fetch.
\<close>

lemma play_track_addr: "addr_ok (play_track t s) = addr_ok s"
  by (simp add: addr_ok_def play_track_def Let_def split: sum.splits)

lemma cache_put_ran: "a' \<in> ran (cache_put key a c) \<Longrightarrow> a' = a \<or> a' \<in> ran c"
  by (auto simp: cache_put_def ran_def split: option.splits if_splits)

lemma cached_ran: "cached key c = Some a \<Longrightarrow> a \<in> ran c"
  by (auto simp: cached_def ran_def split: option.splits if_splits)

lemma load_addr: "addr_ok s \<Longrightarrow> addr_ok (load_playlist_tracks p lim s)"
proof (cases "cached (pl_ratingKey p) (tracks_cache s)")
  case (Some a)
  assume ok: "addr_ok s"
  with cached_ran [OF Some] have "a < next_addr s" by (simp add: addr_ok_def)
  with ok show ?thesis by (simp add: addr_ok_def hit_effects [OF Some])
next
  case None
  assume ok: "addr_ok s"
  obtain cs r where f: "fetch_tracks (music_library s) p lim = (cs, r)"
    by (cases "fetch_tracks (music_library s) p lim")
  show ?thesis
  proof (cases r)
    case (Inl e)
    with ok f None show ?thesis by (simp add: load_fail addr_ok_def)
  next
    case (Inr tracks)
    with f have f': "fetch_tracks (music_library s) p lim = (cs, Inr tracks)" by simp
    have "a < Suc (next_addr s)"
      if "a \<in> ran (cache_put (pl_ratingKey p) (next_addr s) (tracks_cache s))" for a
      using cache_put_ran [OF that] ok by (auto simp: addr_ok_def less_Suc_eq)
    then show ?thesis
      by (simp add: load_miss [OF None f'] addr_ok_def update_playlist_display_def)
  qed
qed

lemma field_addr:
  "addr_ok (s\<lparr>highlighted_playlist := x\<rparr>) = addr_ok s"
  "addr_ok (s\<lparr>highlighted_playlist_key := y\<rparr>) = addr_ok s"
  "addr_ok (s\<lparr>current_index := i\<rparr>) = addr_ok s"
  "addr_ok (s\<lparr>is_playing := b\<rparr>) = addr_ok s"
  "addr_ok (s\<lparr>current_process := b\<rparr>) = addr_ok s"
  "addr_ok (s\<lparr>store := st\<rparr>) = addr_ok s"
  "addr_ok (s\<lparr>plex := px, music_library := ml, playlist_cache := pc\<rparr>) = addr_ok s"
  by (simp_all add: addr_ok_def)

lemma step_addr: "addr_ok s \<Longrightarrow> addr_ok (step s e)"
proof (cases e)
  case (Selected k)
  assume "addr_ok s"
  then show ?thesis using Selected
    by (simp add: on_list_view_selected_def Let_def load_addr field_addr split: option.splits)
next
  case (PlayPause rs)
  assume "addr_ok s"
  then show ?thesis using PlayPause load_addr [of s _ None]
    by (simp add: action_play_pause_def Let_def play_track_addr field_addr split: option.splits)
next
  case LoadPlaylist
  assume "addr_ok s"
  then show ?thesis using LoadPlaylist
    by (simp add: action_load_playlist_def load_addr field_addr split: option.splits)
qed (simp_all add: action_next_def action_previous_def action_random_def Let_def
      on_list_view_highlighted_def play_track_addr field_addr split: option.splits)

lemma run_addr: "addr_ok s \<Longrightarrow> addr_ok (run s evs)"
  unfolding run_def by (induction evs arbitrary: s) (simp_all add: step_addr)

lemma startup_addr: "addr_ok (startup px ml pc pf sg)"
  by (simp add: addr_ok_def startup_def)

lemma fetch_keeps_cached_lists:
  assumes "addr_ok s" and "tracks_cache s k = Some a"
    and "cached (pl_ratingKey p) (tracks_cache s) = None"
  shows "store (load_playlist_tracks p lim s) a = store s a"
proof -
  from assms(1,2) have "a < next_addr s" by (auto simp: addr_ok_def ran_def)
  then have ne: "a \<noteq> next_addr s" by simp
  obtain cs r where f: "fetch_tracks (music_library s) p lim = (cs, r)"
    by (cases "fetch_tracks (music_library s) p lim")
  show ?thesis
  proof (cases r)
    case (Inl e)
    with f assms(3) show ?thesis by (simp add: load_fail)
  next
    case (Inr tracks)
    with f have "fetch_tracks (music_library s) p lim = (cs, Inr tracks)" by simp
    from miss_effects(2) [OF assms(3) this] ne show ?thesis by simp
  qed
qed

end
